theory Spec2Isabelle
  imports Main "HOL-Library.AList" "HOL-Library.Log_Nat" "HOL-Library.Char_ord"
    "HOL-Library.List_Lexorder"
begin

section \<open>Python values\<close>

text \<open>
  The notebook \<^verbatim>\<open>extract_transform_load.ipynb\<close> is embedded function by function.
  A Python \<^verbatim>\<open>str\<close> is a \<^typ>\<open>string\<close>; its characters are read as the code points
  U+0000 to U+00FF.  A Python \<^verbatim>\<open>dict\<close> is an association list in insertion order:
  \<^verbatim>\<open>d[k] = v\<close> is \<^const>\<open>AList.update\<close> (a known key keeps its place and takes
  the new value, a new key goes to the end) and \<^verbatim>\<open>d[k]\<close> is \<^const>\<open>map_of\<close>.
  Everything the code can raise is a value of type \<open>error\<close>.
\<close>

datatype error =
    IndexError
  | KeyError string
  | ValueError
  | AttributeError

type_synonym 'v dict = "(string \<times> 'v) list"

text \<open>\<^verbatim>\<open>str.isspace\<close> on one character (the white space of \<^verbatim>\<open>split\<close> and \<^verbatim>\<open>strip\<close>).\<close>

definition isspace :: "char \<Rightarrow> bool" where
  "isspace c =
     (let n = (of_char c :: nat)
      in (9 \<le> n \<and> n \<le> 13) \<or> (28 \<le> n \<and> n \<le> 32) \<or> n = 133 \<or> n = 160)"

text \<open>
  \<^verbatim>\<open>str.split()\<close> without a separator: runs of white space separate the words, and
  no empty word is produced.  The first argument is the word being read.
\<close>

fun split_aux :: "string \<Rightarrow> string \<Rightarrow> string list" where
  "split_aux w [] = (if w = [] then [] else [w])"
| "split_aux w (c # cs) =
     (if isspace c then (if w = [] then split_aux [] cs else w # split_aux [] cs)
      else split_aux (w @ [c]) cs)"

definition split :: "string \<Rightarrow> string list" where
  "split s = split_aux [] s"

text \<open>\<^verbatim>\<open>str.strip()\<close>: white space removed at both ends.\<close>

definition strip :: "string \<Rightarrow> string" where
  "strip s = rev (dropWhile isspace (rev (dropWhile isspace s)))"

text \<open>
  \<^verbatim>\<open>str.lower()\<close> on the code points U+0000 to U+00FF: the letters A to Z and the
  capital letters U+00C0 to U+00DE (U+00D7, the multiplication sign, is no letter) have a
  lower-case form, 32 code points above them.
\<close>

definition upper_letters :: string where
  "upper_letters =
     ''ABCDEFGHIJKLMNOPQRSTUVWXYZ'' @
     [CHR 0xC0, CHR 0xC1, CHR 0xC2, CHR 0xC3, CHR 0xC4, CHR 0xC5, CHR 0xC6, CHR 0xC7,
      CHR 0xC8, CHR 0xC9, CHR 0xCA, CHR 0xCB, CHR 0xCC, CHR 0xCD, CHR 0xCE, CHR 0xCF,
      CHR 0xD0, CHR 0xD1, CHR 0xD2, CHR 0xD3, CHR 0xD4, CHR 0xD5, CHR 0xD6, CHR 0xD8,
      CHR 0xD9, CHR 0xDA, CHR 0xDB, CHR 0xDC, CHR 0xDD, CHR 0xDE]"

definition lower_letters :: string where
  "lower_letters =
     ''abcdefghijklmnopqrstuvwxyz'' @
     [CHR 0xE0, CHR 0xE1, CHR 0xE2, CHR 0xE3, CHR 0xE4, CHR 0xE5, CHR 0xE6, CHR 0xE7,
      CHR 0xE8, CHR 0xE9, CHR 0xEA, CHR 0xEB, CHR 0xEC, CHR 0xED, CHR 0xEE, CHR 0xEF,
      CHR 0xF0, CHR 0xF1, CHR 0xF2, CHR 0xF3, CHR 0xF4, CHR 0xF5, CHR 0xF6, CHR 0xF8,
      CHR 0xF9, CHR 0xFA, CHR 0xFB, CHR 0xFC, CHR 0xFD, CHR 0xFE]"

definition lower_char :: "char \<Rightarrow> char" where
  "lower_char c = (case map_of (zip upper_letters lower_letters) c of None \<Rightarrow> c | Some l \<Rightarrow> l)"

definition lower :: "string \<Rightarrow> string" where
  "lower s = map lower_char s"

section \<open>Extract\<close>

subsection \<open>\<^verbatim>\<open>get_acronym\<close>\<close>

text \<open>\<^verbatim>\<open>word[0]\<close> raises \<^verbatim>\<open>IndexError\<close> on the empty string.\<close>

definition getitem0 :: "string \<Rightarrow> error + char" where
  "getitem0 word = (case word of [] \<Rightarrow> Inl IndexError | c # _ \<Rightarrow> Inr c)"

text \<open>The generator \<^verbatim>\<open>word[0] for word in ...\<close>, consumed by \<^verbatim>\<open>''.join\<close>.\<close>

fun first_chars :: "string list \<Rightarrow> error + string" where
  "first_chars [] = Inr []"
| "first_chars (word # ws) =
     (case getitem0 word of
        Inl e \<Rightarrow> Inl e
      | Inr c \<Rightarrow> (case first_chars ws of Inl e \<Rightarrow> Inl e | Inr cs \<Rightarrow> Inr (c # cs)))"

definition get_acronym :: "string \<Rightarrow> error + string" where
  "get_acronym agency = first_chars (split agency)"

text \<open>
  A label written out from its words: the words \<open>ws\<close> with the separator \<open>seps ! i\<close>
  between word \<open>i\<close> and word \<open>i + 1\<close>.
\<close>

fun interleave :: "string list \<Rightarrow> string list \<Rightarrow> string" where
  "interleave [] seps = []"
| "interleave [w] seps = w"
| "interleave (w # ws) [] = w @ interleave ws []"
| "interleave (w # ws) (s # seps) = w @ s @ interleave ws seps"

definition is_word :: "string \<Rightarrow> bool" where
  "is_word w = (w \<noteq> [] \<and> list_all (\<lambda>c. \<not> isspace c) w)"

definition is_gap :: "string \<Rightarrow> bool" where
  "is_gap s = (s \<noteq> [] \<and> list_all isspace s)"

subsection \<open>The parsed document\<close>

text \<open>
  BeautifulSoup's tree: a tag with its name and children, or a string.  \<^verbatim>\<open>find_all\<close>
  searches all descendants in document order, \<^verbatim>\<open>find\<close> gives the first hit or
  \<^verbatim>\<open>None\<close>, and \<^verbatim>\<open>.text\<close> joins all strings below a node.
\<close>

datatype node = Tag string "node list" | NavigableString string

fun descendants :: "node \<Rightarrow> node list" where
  "descendants (NavigableString s) = []"
| "descendants (Tag name children) = concat (map (\<lambda>c. c # descendants c) children)"

fun is_tag :: "string \<Rightarrow> node \<Rightarrow> bool" where
  "is_tag name (Tag n children) = (n = name)"
| "is_tag name (NavigableString s) = False"

definition find_all :: "string \<Rightarrow> node \<Rightarrow> node list" where
  "find_all name n = filter (is_tag name) (descendants n)"

definition find :: "string \<Rightarrow> node \<Rightarrow> node option" where
  "find name n = (case find_all name n of [] \<Rightarrow> None | x # _ \<Rightarrow> Some x)"

fun get_text :: "node \<Rightarrow> string" where
  "get_text (NavigableString s) = s"
| "get_text (Tag name children) = concat (map get_text children)"

text \<open>\<^verbatim>\<open>xs[i]\<close> for \<open>i \<ge> 0\<close>, and \<^verbatim>\<open>xs.index(x)\<close>.\<close>

definition getitem :: "'a list \<Rightarrow> nat \<Rightarrow> error + 'a" where
  "getitem xs i = (if i < length xs then Inr (xs ! i) else Inl IndexError)"

fun list_index :: "'a list \<Rightarrow> 'a \<Rightarrow> error + nat" where
  "list_index [] x = Inl ValueError"
| "list_index (y # ys) x =
     (if y = x then Inr 0 else (case list_index ys x of Inl e \<Rightarrow> Inl e | Inr i \<Rightarrow> Inr (Suc i)))"

subsection \<open>\<^verbatim>\<open>get_gdps\<close>\<close>

text \<open>
  The body of the \<^verbatim>\<open>for row in ...\<close> loop, one row at a time, with the dictionary
  \<^verbatim>\<open>gdps\<close> built so far.  \<^verbatim>\<open>cols[1].find('a')\<close> is \<^verbatim>\<open>None\<close> when the cell has no
  anchor, and \<^verbatim>\<open>None.text\<close> raises \<^verbatim>\<open>AttributeError\<close>.
\<close>

fun gdps_loop :: "node list \<Rightarrow> string dict \<Rightarrow> error + string dict" where
  "gdps_loop [] gdps = Inr gdps"
| "gdps_loop (row # rows) gdps =
     (let cols = find_all ''td'' row
      in if length cols \<noteq> 3 then gdps_loop rows gdps
         else (case find ''a'' (cols ! 1) of
                 None \<Rightarrow> Inl AttributeError
               | Some a \<Rightarrow>
                   (let name = strip (get_text a);
                        gdp = strip (get_text (cols ! 2))
                    in gdps_loop rows (AList.update name gdp gdps))))"

text \<open>
  The module-level names \<^verbatim>\<open>gdptablestext\<close> and \<^verbatim>\<open>acronyms\<close> that the function reads
  are its first two arguments; \<^verbatim>\<open>htmltext\<close> and \<^verbatim>\<open>acronym\<close> are its parameters.
\<close>

definition get_gdps :: "node \<Rightarrow> string list \<Rightarrow> 'h \<Rightarrow> string \<Rightarrow> error + string dict" where
  "get_gdps gdptablestext acronyms htmltext acronym =
     (case list_index acronyms acronym of
        Inl e \<Rightarrow> Inl e
      | Inr idx \<Rightarrow>
          (case getitem (find_all ''tr'' gdptablestext) 1 of
             Inl e \<Rightarrow> Inl e
           | Inr tr1 \<Rightarrow>
               (case getitem (find_all ''tbody'' tr1) idx of
                  Inl e \<Rightarrow> Inl e
                | Inr tbody \<Rightarrow> gdps_loop (find_all ''tr'' tbody) [])))"

text \<open>The rows of the sub-table that \<^verbatim>\<open>get_gdps\<close> iterates over.\<close>

definition sub_table_rows :: "node \<Rightarrow> string list \<Rightarrow> string \<Rightarrow> error + node list" where
  "sub_table_rows gdptablestext acronyms acronym =
     (case list_index acronyms acronym of
        Inl e \<Rightarrow> Inl e
      | Inr idx \<Rightarrow>
          (case getitem (find_all ''tr'' gdptablestext) 1 of
             Inl e \<Rightarrow> Inl e
           | Inr tr1 \<Rightarrow>
               (case getitem (find_all ''tbody'' tr1) idx of
                  Inl e \<Rightarrow> Inl e
                | Inr tbody \<Rightarrow> Inr (find_all ''tr'' tbody))))"

text \<open>A data row has exactly three \<^verbatim>\<open>td\<close> cells; its name cell may hold an anchor.\<close>

definition is_data_row :: "node \<Rightarrow> bool" where
  "is_data_row row = (length (find_all ''td'' row) = 3)"

definition has_anchor :: "node \<Rightarrow> bool" where
  "has_anchor row = (find ''a'' (find_all ''td'' row ! 1) \<noteq> None)"

fun anchor_text :: "node option \<Rightarrow> string" where
  "anchor_text None = []"
| "anchor_text (Some a) = get_text a"

definition row_entry :: "node \<Rightarrow> string \<times> string" where
  "row_entry row =
     (let cols = find_all ''td'' row
      in (strip (anchor_text (find ''a'' (cols ! 1))), strip (get_text (cols ! 2))))"

definition row_entries :: "node list \<Rightarrow> (string \<times> string) list" where
  "row_entries rows = map row_entry (filter is_data_row rows)"

text \<open>A string without white space at either end.\<close>

definition stripped :: "string \<Rightarrow> bool" where
  "stripped s = (s = [] \<or> (\<not> isspace (hd s) \<and> \<not> isspace (last s)))"

text \<open>Writing a list of entries into a dictionary, one assignment after the other.\<close>

definition assign_all :: "(string \<times> 'v) list \<Rightarrow> 'v dict \<Rightarrow> 'v dict" where
  "assign_all entries d = foldl (\<lambda>d (k, v). AList.update k v d) d entries"

section \<open>Transform\<close>

subsection \<open>\<^verbatim>\<open>get_exchange_rates\<close>\<close>

text \<open>
  \<^verbatim>\<open>re.sub(r'^(USD)', r'', k)\<close>: the scan over the subject, \<open>pos\<close> being the position
  reached and \<open>s\<close> the subject from there on.  The pattern matches at a position when
  that position is the start of the subject and the three characters there are
  \<^verbatim>\<open>USD\<close>; a match is replaced by the empty string and the scan goes on behind it.
\<close>

definition match_USD_at :: "nat \<Rightarrow> string \<Rightarrow> bool" where
  "match_USD_at pos s = (pos = 0 \<and> take 3 s = ''USD'')"

function re_sub_USD :: "nat \<Rightarrow> string \<Rightarrow> string" where
  "re_sub_USD pos s =
     (if match_USD_at pos s then [] @ re_sub_USD (pos + 3) (drop 3 s)
      else (case s of [] \<Rightarrow> [] | c # cs \<Rightarrow> c # re_sub_USD (Suc pos) cs))"
  by pat_completeness auto
termination
  apply (relation "measure (\<lambda>(pos, s). length s)")
    apply (auto simp: match_USD_at_def)
  subgoal for s by (cases s) auto
  done

declare re_sub_USD.simps [simp del]

text \<open>
  The argument \<open>quotes\<close> is the value of \<^verbatim>\<open>requests.get(url).json()['quotes']\<close>; the
  request itself is outside the model.  The result is the returned dictionary and the
  file written, if any.
\<close>

definition get_exchange_rates :: "'v dict \<Rightarrow> bool \<Rightarrow> 'v dict \<times> (string \<times> 'v dict) option" where
  "get_exchange_rates quotes write =
     (let rates = assign_all (map (\<lambda>(k, v). (re_sub_USD 0 k, v)) quotes) []
      in (rates, if write then Some (''exchange_rates.json'', rates) else None))"

subsection \<open>Floating-point numbers\<close>

text \<open>
  A \<^verbatim>\<open>float64\<close> is a rational number (the exact value of a finite double), an
  infinity or NaN; the sign of zero is not kept.  \<open>to_double\<close> rounds an exact value to
  the nearest double, ties to the even significand: the significand \<open>m\<close> has 53 bits,
  the exponent \<open>e\<close> is at least \<open>-1022\<close> (below it the spacing stays \<open>2^-1074\<close>), and
  a rounded value of \<open>2^1024\<close> or more is an infinity.  The product of two doubles is
  the exact product rounded in this way.
\<close>

datatype float64 = Finite rat | PosInf | NegInf | NaN

definition round_half_even :: "rat \<Rightarrow> int" where
  "round_half_even q =
     (let f = \<lfloor>q\<rfloor>; r = q - of_int f
      in if r < 1 / 2 then f else if 1 / 2 < r then f + 1 else if even f then f else f + 1)"

definition pow2 :: "int \<Rightarrow> rat" where
  "pow2 e = (if 0 \<le> e then 2 ^ nat e else 1 / 2 ^ nat (- e))"

definition pow10 :: "int \<Rightarrow> rat" where
  "pow10 e = (if 0 \<le> e then 10 ^ nat e else 1 / 10 ^ nat (- e))"

text \<open>The exponent \<open>e\<close> with \<open>2^e \<le> a < 2^(e+1)\<close>, for \<open>a > 0\<close>.\<close>

definition ilog2 :: "rat \<Rightarrow> int" where
  "ilog2 a = (if 1 \<le> a then bitlen \<lfloor>a\<rfloor> - 1 else - bitlen (\<lceil>1 / a\<rceil> - 1))"

definition to_double :: "rat \<Rightarrow> float64" where
  "to_double q =
     (if q = 0 then Finite 0
      else let a = \<bar>q\<bar>;
               e = max (ilog2 a) (- 1022);
               m = round_half_even (a / pow2 (e - 52))
           in if 1023 < e \<or> (e = 1023 \<and> m = 2 ^ 53) then (if 0 < q then PosInf else NegInf)
              else Finite (of_int (if 0 < q then m else - m) * pow2 (e - 52)))"

fun fmul :: "float64 \<Rightarrow> float64 \<Rightarrow> float64" where
  "fmul (Finite a) (Finite b) = to_double (a * b)"
| "fmul NaN y = NaN"
| "fmul x NaN = NaN"
| "fmul (Finite a) PosInf = (if a = 0 then NaN else if 0 < a then PosInf else NegInf)"
| "fmul (Finite a) NegInf = (if a = 0 then NaN else if 0 < a then NegInf else PosInf)"
| "fmul PosInf (Finite b) = (if b = 0 then NaN else if 0 < b then PosInf else NegInf)"
| "fmul NegInf (Finite b) = (if b = 0 then NaN else if 0 < b then NegInf else PosInf)"
| "fmul PosInf PosInf = PosInf"
| "fmul PosInf NegInf = NegInf"
| "fmul NegInf PosInf = NegInf"
| "fmul NegInf NegInf = PosInf"

text \<open>\<^verbatim>\<open>numpy.rint\<close>, which is what \<^verbatim>\<open>round(0)\<close> applies to a float column.\<close>

fun rint :: "float64 \<Rightarrow> float64" where
  "rint (Finite q) = Finite (of_int (round_half_even q))"
| "rint PosInf = PosInf"
| "rint NegInf = NegInf"
| "rint NaN = NaN"

fun isfinite :: "float64 \<Rightarrow> bool" where
  "isfinite (Finite q) = True"
| "isfinite PosInf = False"
| "isfinite NegInf = False"
| "isfinite NaN = False"

text \<open>
  The cast of a float to \<^verbatim>\<open>int64\<close> (\<^verbatim>\<open>int\<close> is numpy's 64-bit integer): the fraction is
  cut off, and a value that no \<^verbatim>\<open>int64\<close> holds gives the least \<^verbatim>\<open>int64\<close>, as the
  conversion instruction of x86-64 does.
\<close>

definition int64_min :: int where
  "int64_min = - (2 ^ 63)"

definition int64_max :: int where
  "int64_max = 2 ^ 63 - 1"

fun astype_int64 :: "float64 \<Rightarrow> int" where
  "astype_int64 (Finite q) =
     (let z = (if 0 \<le> q then \<lfloor>q\<rfloor> else \<lceil>q\<rceil>)
      in if int64_min \<le> z \<and> z \<le> int64_max then z else int64_min)"
| "astype_int64 PosInf = int64_min"
| "astype_int64 NegInf = int64_min"
| "astype_int64 NaN = int64_min"

subsection \<open>Numeric text\<close>

text \<open>
  What \<^verbatim>\<open>pd.to_numeric(..., errors='coerce')\<close> makes of one string: white space,
  a sign, decimal digits with an optional fraction, an optional exponent, white space.
  The value is the double nearest to the numeral (pandas reads at most 17 digits of a
  numeral and scales them, which can differ from the nearest double in the last bit for
  longer numerals); a numeral beyond the range of the doubles, like any other text that
  is not a numeral, is coerced to NaN.  The words \<^verbatim>\<open>inf\<close> and \<^verbatim>\<open>infinity\<close>, with an
  optional sign and in any case, are the infinities.  A column whose cells are all
  integers is held as integers and turned into doubles when it is multiplied by the
  rate; the number that enters the product is the same.
\<close>

definition isspace_ascii :: "char \<Rightarrow> bool" where
  "isspace_ascii c = (c \<in> set [CHR '' '', CHR 0x09, CHR 0x0A, CHR 0x0B, CHR 0x0C, CHR 0x0D])"

definition isdigit :: "char \<Rightarrow> bool" where
  "isdigit c = (c \<in> set ''0123456789'')"

definition digit_val :: "char \<Rightarrow> int" where
  "digit_val c = of_char c - 48"

definition digits_val :: "string \<Rightarrow> int" where
  "digits_val ds = foldl (\<lambda>n c. 10 * n + digit_val c) 0 ds"

definition parse_sign :: "string \<Rightarrow> bool \<times> string" where
  "parse_sign p =
     (case p of
        [] \<Rightarrow> (False, [])
      | c # cs \<Rightarrow>
          if c = CHR ''-'' then (True, cs) else if c = CHR ''+'' then (False, cs) else (False, p))"

text \<open>An exponent mark without digits behind it is not consumed.\<close>

definition parse_exponent :: "string \<Rightarrow> int \<times> string" where
  "parse_exponent p =
     (case p of
        [] \<Rightarrow> (0, [])
      | c # cs \<Rightarrow>
          if c = CHR ''e'' \<or> c = CHR ''E'' then
            (let (negative, t) = parse_sign cs;
                 ds = takeWhile isdigit t
             in if ds = [] then (0, p)
                else (if negative then - digits_val ds else digits_val ds, dropWhile isdigit t))
          else (0, p))"

definition parse_fraction :: "string \<Rightarrow> string \<times> string" where
  "parse_fraction p =
     (case p of
        [] \<Rightarrow> ([], [])
      | c # cs \<Rightarrow>
          if c = CHR ''.'' then (takeWhile isdigit cs, dropWhile isdigit cs) else ([], p))"

definition xstrtod :: "string \<Rightarrow> rat option" where
  "xstrtod str =
     (let (negative, p) = parse_sign (dropWhile isspace_ascii str);
          int_digits = takeWhile isdigit p;
          (frac_digits, p) = parse_fraction (dropWhile isdigit p)
      in if int_digits = [] \<and> frac_digits = [] then None
         else
           (let (exponent, p) = parse_exponent p;
                number = of_int (digits_val (int_digits @ frac_digits)) *
                           pow10 (exponent - int (length frac_digits))
            in if dropWhile isspace_ascii p \<noteq> [] then None
               else Some (if negative then - number else number)))"

definition to_numeric :: "string \<Rightarrow> float64" where
  "to_numeric s =
     (case xstrtod s of
        Some q \<Rightarrow> (case to_double q of Finite v \<Rightarrow> Finite v | _ \<Rightarrow> NaN)
      | None \<Rightarrow>
          if lower s \<in> set [''inf'', ''+inf'', ''infinity'', ''+infinity''] then PosInf
          else if lower s \<in> set [''-inf'', ''-infinity''] then NegInf
          else NaN)"

text \<open>
  The numerals, from their parts: white space, a sign, the digits before the point,
  the point with the digits behind it, the exponent (its mark, its sign and its
  digits), white space.  \<open>decimal_ok\<close> says when the parts make a numeral,
  \<open>decimal_text\<close> is the text that they write and \<open>decimal_value\<close> the number that
  the text writes.  They are the measure of the parser above and take no part in the
  run of \<^verbatim>\<open>transform_gdps\<close>; so are the characters that a numeral can hold and the
  words for infinity.
\<close>

record decimal =
  d_lead :: string
  d_sign :: string
  d_int :: string
  d_frac :: "string option"
  d_exp :: "(char \<times> string \<times> string) option"
  d_trail :: string

definition is_sign :: "string \<Rightarrow> bool" where
  "is_sign sg = (sg = [] \<or> sg = ''-'' \<or> sg = ''+'')"

definition frac_text :: "string option \<Rightarrow> string" where
  "frac_text f = (case f of None \<Rightarrow> [] | Some fp \<Rightarrow> CHR ''.'' # fp)"

definition exp_text :: "(char \<times> string \<times> string) option \<Rightarrow> string" where
  "exp_text x = (case x of None \<Rightarrow> [] | Some (c, sg, ds) \<Rightarrow> c # sg @ ds)"

definition decimal_text :: "decimal \<Rightarrow> string" where
  "decimal_text n =
     d_lead n @ d_sign n @ d_int n @ frac_text (d_frac n) @ exp_text (d_exp n) @ d_trail n"

definition frac_ok :: "string \<Rightarrow> string option \<Rightarrow> bool" where
  "frac_ok ip f =
     (case f of None \<Rightarrow> ip \<noteq> [] | Some fp \<Rightarrow> list_all isdigit fp \<and> (ip \<noteq> [] \<or> fp \<noteq> []))"

definition exp_ok :: "(char \<times> string \<times> string) option \<Rightarrow> bool" where
  "exp_ok x =
     (case x of
        None \<Rightarrow> True
      | Some (c, sg, ds) \<Rightarrow>
          (c = CHR ''e'' \<or> c = CHR ''E'') \<and> is_sign sg \<and> ds \<noteq> [] \<and> list_all isdigit ds)"

definition decimal_ok :: "decimal \<Rightarrow> bool" where
  "decimal_ok n =
     (list_all isspace_ascii (d_lead n) \<and> is_sign (d_sign n) \<and> list_all isdigit (d_int n) \<and>
      frac_ok (d_int n) (d_frac n) \<and> exp_ok (d_exp n) \<and> list_all isspace_ascii (d_trail n))"

definition frac_digits_of :: "string option \<Rightarrow> string" where
  "frac_digits_of f = (case f of None \<Rightarrow> [] | Some fp \<Rightarrow> fp)"

definition exp_value :: "(char \<times> string \<times> string) option \<Rightarrow> int" where
  "exp_value x =
     (case x of
        None \<Rightarrow> 0
      | Some (c, sg, ds) \<Rightarrow> if sg = ''-'' then - digits_val ds else digits_val ds)"

definition decimal_value :: "decimal \<Rightarrow> rat" where
  "decimal_value n =
     (let fp = frac_digits_of (d_frac n);
          v = of_int (digits_val (d_int n @ fp)) * pow10 (exp_value (d_exp n) - int (length fp))
      in if d_sign n = ''-'' then - v else v)"



text \<open>
  A scan that takes the characters of a class stops at a text that is empty or begins
  with a character outside the class.
\<close>

definition stops :: "(char \<Rightarrow> bool) \<Rightarrow> string \<Rightarrow> bool" where
  "stops P r = (case r of [] \<Rightarrow> True | c # _ \<Rightarrow> \<not> P c)"

subsection \<open>Data frames\<close>

text \<open>
  A data frame is its row labels and its columns, each column a name and one value per
  row label.  A cell of the raw frame is a string or missing (\<open>None\<close>).
\<close>

record 'a dataframe =
  index :: "string list"
  columns :: "(string \<times> 'a list) list"

text \<open>
  The row labels of a frame built from a dictionary of dictionaries are the union of
  the key lists.  As in the pandas releases that run on the notebook's Python 3.7, a
  single list of keys is sorted (\<^verbatim>\<open>sorted\<close> on strings: by code point, a prefix first),
  and two or more lists are united in order of first appearance: every key not yet seen
  is appended.  An empty dictionary gives a frame without rows and columns, without
  any union.
\<close>

fun fast_unique :: "string list \<Rightarrow> string list \<Rightarrow> string list" where
  "fast_unique uniques [] = uniques"
| "fast_unique uniques (val # vals) =
     (if val \<in> set uniques then fast_unique uniques vals
      else fast_unique (uniques @ [val]) vals)"

fun union_indexes :: "string list list \<Rightarrow> string list" where
  "union_indexes [result] = sort result"
| "union_indexes indexes = fast_unique [] (concat indexes)"

text \<open>\<^verbatim>\<open>pd.DataFrame(gdps)\<close>: one column per source key, one row per entity.\<close>

definition DataFrame :: "string dict dict \<Rightarrow> string option dataframe" where
  "DataFrame gdps =
     (let idx = (if gdps = [] then [] else union_indexes (map (\<lambda>(k, d). map fst d) gdps))
      in \<lparr>index = idx, columns = map (\<lambda>(k, d). (k, map (map_of d) idx)) gdps\<rparr>)"

definition applymap :: "('a \<Rightarrow> 'b) \<Rightarrow> 'a dataframe \<Rightarrow> 'b dataframe" where
  "applymap f df = \<lparr>index = index df, columns = map (\<lambda>(k, vs). (k, map f vs)) (columns df)\<rparr>"

text \<open>\<^verbatim>\<open>re.sub(',', '', s)\<close>, which \<^verbatim>\<open>replace(',', '', regex=True)\<close> applies to every string.\<close>

fun re_sub_comma :: "string \<Rightarrow> string" where
  "re_sub_comma [] = []"
| "re_sub_comma (c # cs) = (if c = CHR '','' then re_sub_comma cs else c # re_sub_comma cs)"

definition replace_commas :: "string option dataframe \<Rightarrow> string option dataframe" where
  "replace_commas df = applymap (map_option re_sub_comma) df"

text \<open>\<^verbatim>\<open>df.apply(pd.to_numeric, errors='coerce')\<close>; a missing cell stays NaN.\<close>

fun coerce :: "string option \<Rightarrow> float64" where
  "coerce None = NaN"
| "coerce (Some s) = to_numeric s"

definition apply_to_numeric :: "string option dataframe \<Rightarrow> float64 dataframe" where
  "apply_to_numeric df = applymap coerce df"

text \<open>\<^verbatim>\<open>df.dropna()\<close>: the rows without any NaN, in their order.\<close>

definition notna_rows :: "float64 dataframe \<Rightarrow> nat list" where
  "notna_rows df =
     filter (\<lambda>i. list_all (\<lambda>(k, vs). vs ! i \<noteq> NaN) (columns df)) [0..<length (index df)]"

definition take_rows :: "nat list \<Rightarrow> 'a dataframe \<Rightarrow> 'a dataframe" where
  "take_rows keep df =
     \<lparr>index = map (nth (index df)) keep,
      columns = map (\<lambda>(k, vs). (k, map (nth vs) keep)) (columns df)\<rparr>"

definition dropna :: "float64 dataframe \<Rightarrow> float64 dataframe" where
  "dropna df = take_rows (notna_rows df) df"

text \<open>\<^verbatim>\<open>df.iloc[:] * rate\<close> and \<^verbatim>\<open>df.round(0)\<close>.\<close>

definition mul :: "float64 dataframe \<Rightarrow> float64 \<Rightarrow> float64 dataframe" where
  "mul df rate = applymap (\<lambda>v. fmul v rate) df"

definition round0 :: "float64 dataframe \<Rightarrow> float64 dataframe" where
  "round0 df = applymap rint df"

text \<open>
  \<^verbatim>\<open>df.astype(int)\<close>: pandas refuses a frame with a value that is not finite
  (\<^verbatim>\<open>ValueError\<close>) and casts every value otherwise.
\<close>

definition astype_int :: "float64 dataframe \<Rightarrow> error + int dataframe" where
  "astype_int df =
     (if list_all (\<lambda>(k, vs). list_all isfinite vs) (columns df)
      then Inr (applymap astype_int64 df) else Inl ValueError)"

subsection \<open>\<^verbatim>\<open>transform_gdps\<close>\<close>

text \<open>
  The rates are floats.  \<^verbatim>\<open>rates[currency]\<close> raises \<^verbatim>\<open>KeyError\<close> for a missing key;
  the steps before it raise nothing.
\<close>

definition transform_gdps :: "string dict dict \<Rightarrow> float64 dict \<Rightarrow> string \<Rightarrow> error + int dataframe" where
  "transform_gdps gdps rates currency =
     (let df = DataFrame gdps;
          df = replace_commas df;
          df = apply_to_numeric df;
          df = dropna df
      in case map_of rates currency of
           None \<Rightarrow> Inl (KeyError currency)
         | Some rate \<Rightarrow>
             (let df = mul df rate;
                  df = round0 df
              in astype_int df))"

text \<open>
  The entities of a raw table in the order in which they are first met, the numeric
  value of the cell of an entity in one per-source mapping, and the entities all of
  whose cells are numbers.
\<close>

fun first_seen :: "string list \<Rightarrow> string list" where
  "first_seen [] = []"
| "first_seen (x # xs) = x # filter (\<lambda>y. y \<noteq> x) (first_seen xs)"

definition entities :: "string dict dict \<Rightarrow> string list" where
  "entities gdps = first_seen (concat (map (\<lambda>(k, d). map fst d) gdps))"

definition cell_value :: "string dict \<Rightarrow> string \<Rightarrow> float64" where
  "cell_value d e = coerce (map_option re_sub_comma (map_of d e))"

definition valid_row :: "string dict dict \<Rightarrow> string \<Rightarrow> bool" where
  "valid_row gdps e = list_all (\<lambda>(k, d). cell_value d e \<noteq> NaN) gdps"

definition survivors :: "string dict dict \<Rightarrow> string list" where
  "survivors gdps = filter (valid_row gdps) (entities gdps)"

text \<open>
  The entities in the row order of the frame: sorted for a raw table with a single
  source, as first met otherwise; and those of them all of whose cells are numbers.
\<close>

definition row_labels :: "string dict dict \<Rightarrow> string list" where
  "row_labels gdps =
     (case gdps of
        [(k, d)] \<Rightarrow> sort (map fst d)
      | _ \<Rightarrow> first_seen (concat (map (\<lambda>(k, d). map fst d) gdps)))"

definition kept :: "string dict dict \<Rightarrow> string list" where
  "kept gdps = filter (valid_row gdps) (row_labels gdps)"

section \<open>Load\<close>

text \<open>
  The files written are a map from file name to what was written there.  The
  module-level name \<^verbatim>\<open>currency\<close> that \<^verbatim>\<open>load\<close> reads is its first argument.
\<close>

datatype 'df written = to_json 'df | to_csv 'df

definition load :: "string \<Rightarrow> 'df \<Rightarrow> string \<Rightarrow> (string \<rightharpoonup> 'df written) \<Rightarrow> (string \<rightharpoonup> 'df written)" where
  "load currency df_transformed wf_type files =
     (let joiner = lower currency
      in if lower wf_type = ''json'' then
           files(''gdps_'' @ joiner @ ''.json'' \<mapsto> to_json df_transformed)
         else if lower wf_type = ''csv'' then
           files(''gdps_'' @ joiner @ ''.csv'' \<mapsto> to_csv df_transformed)
         else files)"

section \<open>Properties of \<^verbatim>\<open>get_acronym\<close>\<close>

lemma split_aux_nonempty:
  "(w = [] \<or> is_word w) \<Longrightarrow> list_all is_word (split_aux w s)"
proof (induction s arbitrary: w)
  case Nil
  then show ?case by auto
next
  case (Cons c cs)
  show ?case
  proof (cases "isspace c")
    case True
    with Cons show ?thesis by auto
  next
    case False
    have "is_word (w @ [c])"
      using Cons.prems False by (auto simp: is_word_def)
    then have "list_all is_word (split_aux (w @ [c]) cs)"
      using Cons.IH by blast
    with False show ?thesis by simp
  qed
qed

lemma split_words: "list_all is_word (split s)"
  unfolding split_def by (rule split_aux_nonempty) simp

lemma first_chars_words:
  "list_all is_word ws \<Longrightarrow> first_chars ws = Inr (map hd ws)"
  by (induction ws) (auto simp: is_word_def getitem0_def split: list.splits)

lemma get_acronym_eq: "get_acronym agency = Inr (map hd (split agency))"
  unfolding get_acronym_def by (rule first_chars_words) (rule split_words)

lemma split_aux_gap:
  "list_all isspace s \<Longrightarrow> split_aux [] (s @ r) = split_aux [] r"
  by (induction s) auto

lemma split_aux_word:
  "list_all (\<lambda>c. \<not> isspace c) w \<Longrightarrow> split_aux a (w @ r) = split_aux (a @ w) r"
  by (induction w arbitrary: a) auto

lemma split_aux_word_gap:
  assumes "is_word w" and "is_gap s"
  shows "split_aux [] (w @ s @ r) = w # split_aux [] r"
proof -
  from assms(2) obtain c cs where s: "s = c # cs" and c: "isspace c" and cs: "list_all isspace cs"
    by (cases s) (auto simp: is_gap_def)
  have "split_aux [] (w @ s @ r) = split_aux w (s @ r)"
    using assms(1) split_aux_word [of w "[]" "s @ r"] by (simp add: is_word_def)
  also have "\<dots> = w # split_aux [] (cs @ r)"
    using assms(1) c by (simp add: s is_word_def)
  also have "\<dots> = w # split_aux [] r"
    using cs by (simp add: split_aux_gap)
  finally show ?thesis .
qed

lemma split_aux_last_word:
  assumes "is_word w" and "list_all isspace post"
  shows "split_aux [] (w @ post) = [w]"
proof -
  have "split_aux [] (w @ post) = split_aux w post"
    using assms(1) split_aux_word [of w "[]" post] by (simp add: is_word_def)
  also have "\<dots> = [w]"
  proof (cases post)
    case Nil
    with assms(1) show ?thesis by (simp add: is_word_def)
  next
    case (Cons c cs)
    with assms have "split_aux w post = w # split_aux [] (cs @ [])"
      by (simp add: is_word_def)
    also have "\<dots> = [w]"
      using assms(2) Cons split_aux_gap [of cs "[]"] by simp
    finally show ?thesis .
  qed
  finally show ?thesis .
qed

lemma split_aux_interleave:
  "list_all is_word ws \<Longrightarrow> list_all is_gap seps \<Longrightarrow> Suc (length seps) = length ws \<Longrightarrow>
   list_all isspace post \<Longrightarrow> split_aux [] (interleave ws seps @ post) = ws"
proof (induction ws seps rule: interleave.induct)
  case (1 seps)
  then show ?case by simp
next
  case (2 w seps)
  then show ?case by (simp add: split_aux_last_word)
next
  case (3 w v ws)
  then show ?case by simp
next
  case (4 w v ws s seps)
  then show ?case by (simp add: split_aux_word_gap)
qed

lemma split_interleave:
  assumes "list_all isspace pre" and "list_all is_word ws" and "list_all is_gap seps"
    and "Suc (length seps) = length ws" and "list_all isspace post"
  shows "split (pre @ interleave ws seps @ post) = ws"
  unfolding split_def using assms by (simp add: split_aux_gap split_aux_interleave)

lemma split_no_words: "list_all isspace s \<Longrightarrow> split s = []"
  unfolding split_def using split_aux_gap [of s "[]"] by simp

text \<open>
  Claim C5.  A label made of \<open>k\<close> words (non-empty, free of white space), separated by
  non-empty runs of white space and with any white space before and after, has the
  acronym made of the first character of each word, in order, unchanged and with
  nothing between them; the acronym has length \<open>k\<close>.  A label with no word (empty, or
  white space only) has the empty acronym.  \<^verbatim>\<open>get_acronym\<close> never raises.
\<close>

theorem get_acronym_words:
  "(list_all isspace pre \<and> list_all is_word ws \<and> list_all is_gap seps \<and>
    Suc (length seps) = length ws \<and> list_all isspace post \<longrightarrow>
      get_acronym (pre @ interleave ws seps @ post) = Inr (map hd ws) \<and>
      length (map hd ws) = length ws) \<and>
   (list_all isspace agency \<longrightarrow> get_acronym agency = Inr []) \<and>
   (\<exists>key. get_acronym agency = Inr key \<and> length key = length (split agency))"
proof (intro conjI impI)
  assume a: "list_all isspace pre \<and> list_all is_word ws \<and> list_all is_gap seps \<and>
    Suc (length seps) = length ws \<and> list_all isspace post"
  then have "split (pre @ interleave ws seps @ post) = ws"
    by (simp add: split_interleave)
  then show "get_acronym (pre @ interleave ws seps @ post) = Inr (map hd ws)"
    by (simp add: get_acronym_eq)
next
  show "length (map hd ws) = length ws" by simp
next
  assume "list_all isspace agency"
  then show "get_acronym agency = Inr []"
    by (simp add: get_acronym_eq split_no_words)
next
  show "\<exists>key. get_acronym agency = Inr key \<and> length key = length (split agency)"
    by (simp add: get_acronym_eq)
qed

theorem get_acronym_words_witness:
  "get_acronym ''World  Bank'' = Inr ''WB'' \<and> get_acronym '' '' = Inr ''''"
  using get_acronym_words [of "''''" "[''World'', ''Bank'']" "[''  '']" "''''" "'' ''"]
  by (simp add: is_word_def is_gap_def isspace_def)

section \<open>Properties of dictionaries built by assignment\<close>

lemma map_of_assign_all:
  "map_of (assign_all es d) = map_of d ++ map_of (rev es)"
proof (induction es arbitrary: d)
  case Nil
  then show ?case by (simp add: assign_all_def)
next
  case (Cons e es)
  obtain k v where e: "e = (k, v)" by (cases e)
  have "assign_all (e # es) d = assign_all es (AList.update k v d)"
    by (simp add: assign_all_def e)
  then show ?case
    by (simp add: Cons.IH update_conv' e map_add_upd_left fun_eq_iff map_add_def split: option.splits)
qed

lemma keys_assign_all:
  "fst ` set (assign_all es d) = fst ` set d \<union> fst ` set es"
proof (induction es arbitrary: d)
  case Nil
  then show ?case by (simp add: assign_all_def)
next
  case (Cons e es)
  obtain k v where e: "e = (k, v)" by (cases e)
  have "assign_all (e # es) d = assign_all es (AList.update k v d)"
    by (simp add: assign_all_def e)
  then show ?case
    using Cons.IH [of "AList.update k v d"] by (auto simp: e dom_update)
qed

lemma update_new: "k \<notin> fst ` set d \<Longrightarrow> AList.update k v d = d @ [(k, v)]"
  by (induction d) auto

lemma assign_all_distinct:
  "distinct (map fst (d @ es)) \<Longrightarrow> assign_all es d = d @ es"
proof (induction es arbitrary: d)
  case Nil
  then show ?case by (simp add: assign_all_def)
next
  case (Cons e es)
  obtain k v where e: "e = (k, v)" by (cases e)
  have new: "k \<notin> fst ` set d" using Cons.prems by (auto simp: e)
  have "assign_all (e # es) d = assign_all es (d @ [e])"
    by (simp add: assign_all_def e update_new [OF new])
  also have "\<dots> = (d @ [e]) @ es"
    using Cons.prems by (intro Cons.IH) simp
  finally show ?case by simp
qed

lemma entries_assign_all:
  "set (assign_all es d) \<subseteq> set d \<union> set es"
proof (induction es arbitrary: d)
  case Nil
  then show ?case by (simp add: assign_all_def)
next
  case (Cons e es)
  obtain k v where e: "e = (k, v)" by (cases e)
  have "assign_all (e # es) d = assign_all es (AList.update k v d)"
    by (simp add: assign_all_def e)
  moreover have "set (AList.update k v d) \<subseteq> set d \<union> {(k, v)}"
    by (induction d) auto
  ultimately show ?case
    using Cons.IH [of "AList.update k v d"] by (auto simp: e)
qed

section \<open>Properties of \<^verbatim>\<open>get_gdps\<close>\<close>

lemma stripped_strip: "stripped (strip s)"
proof (cases "strip s = []")
  case True
  then show ?thesis by (simp add: stripped_def)
next
  case False
  let ?a = "dropWhile isspace s"
  let ?b = "dropWhile isspace (rev ?a)"
  have b: "?b \<noteq> []" using False by (simp add: strip_def)
  have a: "?a \<noteq> []"
  proof
    assume e: "?a = []"
    have "?b = []" unfolding e by simp
    with b show False by simp
  qed
  have "\<not> isspace (hd ?b)" using b by (rule hd_dropWhile)
  then have last: "\<not> isspace (last (strip s))"
    using b by (simp add: strip_def last_rev)
  have "rev ?a = takeWhile isspace (rev ?a) @ ?b" by simp
  then have "last (rev ?a) = last ?b" using b by (metis last_appendR)
  moreover have "last (rev ?a) = hd ?a" using a by (simp add: last_rev)
  moreover have "hd (strip s) = last ?b" using b by (simp add: strip_def hd_rev)
  moreover have "\<not> isspace (hd ?a)" using a by (rule hd_dropWhile)
  ultimately have "\<not> isspace (hd (strip s))" by simp
  with last show ?thesis by (simp add: stripped_def)
qed

lemma gdps_loop_eq:
  "gdps_loop rows d =
     (if list_all (\<lambda>row. is_data_row row \<longrightarrow> has_anchor row) rows
      then Inr (assign_all (row_entries rows) d) else Inl AttributeError)"
proof (induction rows arbitrary: d)
  case Nil
  then show ?case by (simp add: assign_all_def row_entries_def)
next
  case (Cons row rows)
  show ?case
  proof (cases "is_data_row row")
    case False
    then show ?thesis
      using Cons.IH [of d] by (simp add: is_data_row_def row_entries_def Let_def)
  next
    case True
    show ?thesis
    proof (cases "find ''a'' (find_all ''td'' row ! 1)")
      case None
      with True show ?thesis by (simp add: is_data_row_def has_anchor_def Let_def)
    next
      case (Some a)
      with True show ?thesis
        using Cons.IH [of "AList.update (fst (row_entry row)) (snd (row_entry row)) d"]
        by (simp add: is_data_row_def has_anchor_def Let_def row_entries_def row_entry_def assign_all_def)
    qed
  qed
qed

lemma get_gdps_rows:
  "get_gdps G A h a =
     (case sub_table_rows G A a of Inl e \<Rightarrow> Inl e | Inr rows \<Rightarrow> gdps_loop rows [])"
  by (simp add: get_gdps_def sub_table_rows_def split: sum.splits)

text \<open>
  Claim C8, as the code has it.  Let \<open>rows\<close> be the rows of the sub-table that
  \<^verbatim>\<open>get_gdps\<close> resolves.  When every row with exactly three \<^verbatim>\<open>td\<close> cells has an anchor
  in its name cell, \<^verbatim>\<open>get_gdps\<close> returns the dictionary obtained by assigning the
  entries of the three-cell rows in row order: rows with another cell count leave no
  entry and raise nothing, the keys are exactly the names of the three-cell rows, the
  last row of a repeated name gives its value, and every name and value is free of
  white space at both ends.  When some three-cell row has no anchor in its name cell,
  \<^verbatim>\<open>get_gdps\<close> raises \<^verbatim>\<open>AttributeError\<close> and returns no dictionary.
\<close>

theorem get_gdps_data_rows:
  assumes "sub_table_rows gdptablestext acronyms acronym = Inr rows"
  shows "(list_all (\<lambda>row. is_data_row row \<longrightarrow> has_anchor row) rows \<longrightarrow>
            (\<exists>gdps. get_gdps gdptablestext acronyms htmltext acronym = Inr gdps \<and>
               gdps = assign_all (row_entries rows) [] \<and>
               fst ` set gdps = fst ` row_entry ` {row \<in> set rows. is_data_row row} \<and>
               map_of gdps = map_of (rev (row_entries rows)) \<and>
               (\<forall>(name, gdp) \<in> set gdps. stripped name \<and> stripped gdp))) \<and>
         (\<not> list_all (\<lambda>row. is_data_row row \<longrightarrow> has_anchor row) rows \<longrightarrow>
            get_gdps gdptablestext acronyms htmltext acronym = Inl AttributeError)"
proof (intro conjI impI)
  assume ok: "list_all (\<lambda>row. is_data_row row \<longrightarrow> has_anchor row) rows"
  let ?gdps = "assign_all (row_entries rows) []"
  have res: "get_gdps gdptablestext acronyms htmltext acronym = Inr ?gdps"
    using assms ok by (simp add: get_gdps_rows gdps_loop_eq)
  have keys: "fst ` set ?gdps = fst ` row_entry ` {row \<in> set rows. is_data_row row}"
    by (simp add: keys_assign_all row_entries_def image_image)
  have last: "map_of ?gdps = map_of (rev (row_entries rows))"
    by (simp add: map_of_assign_all)
  have "stripped name \<and> stripped gdp" if "(name, gdp) \<in> set ?gdps" for name gdp
  proof -
    from that have "(name, gdp) \<in> set (row_entries rows)"
      using entries_assign_all [of "row_entries rows" "[]"] by auto
    then show ?thesis
      by (auto simp: row_entries_def row_entry_def Let_def stripped_strip)
  qed
  then have str: "\<forall>(name, gdp) \<in> set ?gdps. stripped name \<and> stripped gdp"
    by blast
  from res keys last str
  show "\<exists>gdps. get_gdps gdptablestext acronyms htmltext acronym = Inr gdps \<and>
               gdps = assign_all (row_entries rows) [] \<and>
               fst ` set gdps = fst ` row_entry ` {row \<in> set rows. is_data_row row} \<and>
               map_of gdps = map_of (rev (row_entries rows)) \<and>
               (\<forall>(name, gdp) \<in> set gdps. stripped name \<and> stripped gdp)"
    by blast
next
  assume "\<not> list_all (\<lambda>row. is_data_row row \<longrightarrow> has_anchor row) rows"
  then show "get_gdps gdptablestext acronyms htmltext acronym = Inl AttributeError"
    using assms by (simp add: get_gdps_rows gdps_loop_eq)
qed

theorem get_gdps_data_rows_witness:
  "get_gdps
     (Tag ''table''
       [Tag ''tr'' [Tag ''td'' [Tag ''a'' [NavigableString ''World Bank'']]],
        Tag ''tr'' [Tag ''td'' [Tag ''table'' [Tag ''tbody''
          [Tag ''tr'' [Tag ''th'' [NavigableString ''Rank'']],
           Tag ''tr'' [Tag ''td'' [NavigableString ''1''],
                       Tag ''td'' [Tag ''a'' [NavigableString '' World '']],
                       Tag ''td'' [NavigableString ''87,798,526 '']],
           Tag ''tr'' [Tag ''td'' [NavigableString ''note''], Tag ''td'' [NavigableString ''x'']],
           Tag ''tr'' [Tag ''td'' [NavigableString ''2''],
                       Tag ''td'' [Tag ''a'' [NavigableString ''World'']],
                       Tag ''td'' [NavigableString ''5'']]]]]]])
     [''WB''] () ''WB'' = Inr [(''World'', ''5'')]"
  using get_gdps_data_rows [of
     "Tag ''table''
       [Tag ''tr'' [Tag ''td'' [Tag ''a'' [NavigableString ''World Bank'']]],
        Tag ''tr'' [Tag ''td'' [Tag ''table'' [Tag ''tbody''
          [Tag ''tr'' [Tag ''th'' [NavigableString ''Rank'']],
           Tag ''tr'' [Tag ''td'' [NavigableString ''1''],
                       Tag ''td'' [Tag ''a'' [NavigableString '' World '']],
                       Tag ''td'' [NavigableString ''87,798,526 '']],
           Tag ''tr'' [Tag ''td'' [NavigableString ''note''], Tag ''td'' [NavigableString ''x'']],
           Tag ''tr'' [Tag ''td'' [NavigableString ''2''],
                       Tag ''td'' [Tag ''a'' [NavigableString ''World'']],
                       Tag ''td'' [NavigableString ''5'']]]]]]]"
     "[''WB'']" "''WB''"
     "[Tag ''tr'' [Tag ''th'' [NavigableString ''Rank'']],
           Tag ''tr'' [Tag ''td'' [NavigableString ''1''],
                       Tag ''td'' [Tag ''a'' [NavigableString '' World '']],
                       Tag ''td'' [NavigableString ''87,798,526 '']],
           Tag ''tr'' [Tag ''td'' [NavigableString ''note''], Tag ''td'' [NavigableString ''x'']],
           Tag ''tr'' [Tag ''td'' [NavigableString ''2''],
                       Tag ''td'' [Tag ''a'' [NavigableString ''World'']],
                       Tag ''td'' [NavigableString ''5'']]]" "()"]
  by (simp add: sub_table_rows_def find_all_def find_def getitem_def is_data_row_def has_anchor_def
      row_entries_def row_entry_def assign_all_def strip_def isspace_def)

theorem get_gdps_three_cells_counterexample:
  "is_data_row (Tag ''tr'' [Tag ''td'' [NavigableString ''1''],
                       Tag ''td'' [NavigableString ''World''],
                       Tag ''td'' [NavigableString ''87,798,526'']]) \<and>
   get_gdps
     (Tag ''table''
       [Tag ''tr'' [Tag ''td'' [Tag ''a'' [NavigableString ''World Bank'']]],
        Tag ''tr'' [Tag ''td'' [Tag ''table'' [Tag ''tbody''
          [Tag ''tr'' [Tag ''td'' [NavigableString ''1''],
                       Tag ''td'' [NavigableString ''World''],
                       Tag ''td'' [NavigableString ''87,798,526'']]]]]]])
     [''WB''] () ''WB'' = Inl AttributeError"
  by (simp add: get_gdps_def find_all_def find_def getitem_def is_data_row_def)

text \<open>
  Claim C9.  \<^verbatim>\<open>get_gdps\<close> does not read \<^verbatim>\<open>htmltext\<close>: with the same module-level
  \<^verbatim>\<open>gdptablestext\<close> and \<^verbatim>\<open>acronyms\<close> and the same \<^verbatim>\<open>acronym\<close>, any two values of
  \<^verbatim>\<open>htmltext\<close> give the same result.
\<close>

theorem get_gdps_htmltext:
  "get_gdps gdptablestext acronyms h1 acronym = get_gdps gdptablestext acronyms h2 acronym"
  by (simp add: get_gdps_def)

section \<open>Properties of \<^verbatim>\<open>get_exchange_rates\<close>\<close>

lemma re_sub_USD_later: "0 < pos \<Longrightarrow> re_sub_USD pos s = s"
proof (induction s arbitrary: pos)
  case Nil
  then show ?case by (subst re_sub_USD.simps) (simp add: match_USD_at_def)
next
  case (Cons c cs)
  then show ?case by (subst re_sub_USD.simps) (simp add: match_USD_at_def)
qed

lemma re_sub_USD_start:
  "re_sub_USD 0 s = (if take 3 s = ''USD'' then drop 3 s else s)"
proof (cases "take 3 s = ''USD''")
  case True
  then show ?thesis
    by (subst re_sub_USD.simps) (simp add: match_USD_at_def re_sub_USD_later)
next
  case False
  then show ?thesis
    by (subst re_sub_USD.simps) (simp add: match_USD_at_def re_sub_USD_later split: list.splits)
qed

text \<open>
  Claim C4.  A key that begins with \<^verbatim>\<open>USD\<close> loses exactly that leading occurrence, any
  other key is unchanged.  The keys of the result are the normalised keys of the raw
  mapping, every value of the result is the unchanged value of a raw entry whose
  normalised key it is stored under, and when no two raw keys have the same
  normalised key the result is the raw mapping, entry by entry and in its order, with
  only the keys normalised.
\<close>

theorem get_exchange_rates_keys:
  "re_sub_USD 0 (''USD'' @ k) = k \<and>
   (take 3 k' \<noteq> ''USD'' \<longrightarrow> re_sub_USD 0 k' = k') \<and>
   fst ` set (fst (get_exchange_rates quotes write)) = re_sub_USD 0 ` fst ` set quotes \<and>
   (\<forall>(n, v) \<in> set (fst (get_exchange_rates quotes write)).
      \<exists>r. (r, v) \<in> set quotes \<and> n = re_sub_USD 0 r) \<and>
   (distinct (map (re_sub_USD 0 \<circ> fst) quotes) \<longrightarrow>
      fst (get_exchange_rates quotes write) = map (\<lambda>(r, v). (re_sub_USD 0 r, v)) quotes)"
proof (intro conjI impI)
  show "re_sub_USD 0 (''USD'' @ k) = k" by (simp add: re_sub_USD_start)
  show "re_sub_USD 0 k' = k'" if "take 3 k' \<noteq> ''USD''"
    using that by (simp add: re_sub_USD_start)
  show "fst ` set (fst (get_exchange_rates quotes write)) = re_sub_USD 0 ` fst ` set quotes"
    by (force simp: get_exchange_rates_def Let_def keys_assign_all image_iff)
  show "\<forall>(n, v) \<in> set (fst (get_exchange_rates quotes write)).
      \<exists>r. (r, v) \<in> set quotes \<and> n = re_sub_USD 0 r"
    using entries_assign_all [of "map (\<lambda>(r, v). (re_sub_USD 0 r, v)) quotes" "[]"]
    by (auto simp: get_exchange_rates_def Let_def)
  show "fst (get_exchange_rates quotes write) = map (\<lambda>(r, v). (re_sub_USD 0 r, v)) quotes"
    if "distinct (map (re_sub_USD 0 \<circ> fst) quotes)"
  proof -
    let ?es = "map (\<lambda>(r, v). (re_sub_USD 0 r, v)) quotes"
    have "map fst ?es = map (re_sub_USD 0 \<circ> fst) quotes"
      by (simp add: case_prod_beta comp_def)
    with that have "distinct (map fst ([] @ ?es))"
      by (simp only: append_Nil)
    then have "assign_all ?es [] = [] @ ?es"
      by (rule assign_all_distinct)
    then show ?thesis
      by (simp add: get_exchange_rates_def Let_def)
  qed
qed

theorem get_exchange_rates_keys_witness:
  "re_sub_USD 0 ''USDGBP'' = ''GBP'' \<and> re_sub_USD 0 ''EURJPY'' = ''EURJPY'' \<and> 
   re_sub_USD 0 ''USDUSD'' = ''USD'' \<and>
   fst (get_exchange_rates [(''USDGBP'', 73 :: nat), (''EURJPY'', 2), (''USDUSD'', 1)] True) =
     [(''GBP'', 73), (''EURJPY'', 2), (''USD'', 1)]"
  using get_exchange_rates_keys [of "''GBP''" "''EURJPY''" "[(''USDGBP'', 73 :: nat), (''EURJPY'', 2), (''USDUSD'', 1)]" True]
    get_exchange_rates_keys [of "''USD''" "''EURJPY''" "[]" True]
  by (simp add: re_sub_USD_start)

section \<open>Properties of \<^verbatim>\<open>load\<close>\<close>

lemma lower_char_idem: "lower_char (lower_char c) = lower_char c"
  by (simp add: lower_char_def upper_letters_def lower_letters_def)

lemma lower_idem: "lower (lower s) = lower s"
  by (simp add: lower_def lower_char_idem)

text \<open>
  Claim C10.  When the lower-case form of \<^verbatim>\<open>wf_type\<close> is neither \<^verbatim>\<open>json\<close> nor
  \<^verbatim>\<open>csv\<close>, \<^verbatim>\<open>load\<close> returns with the files as they were: nothing is written and
  nothing is raised.  The selector is compared in lower case, so a selector and its
  lower-case form do the same.
\<close>

theorem load_other_format:
  "(lower wf_type \<noteq> ''json'' \<and> lower wf_type \<noteq> ''csv'' \<longrightarrow>
      load currency df wf_type files = files) \<and>
   load currency df (lower wf_type) files = load currency df wf_type files"
  by (auto simp: load_def lower_idem Let_def)

theorem load_other_format_witness:
  "lower ''XML'' \<noteq> ''json'' \<and> lower ''XML'' \<noteq> ''csv'' \<and>
   load ''GBP'' () ''XML'' Map.empty = Map.empty \<and>
   load ''GBP'' () ''json'' Map.empty = load ''GBP'' () ''JSON'' Map.empty \<and>
   load ''GBP'' () ''JSON'' Map.empty ''gdps_gbp.json'' = Some (to_json ())"
  using load_other_format [of "''XML''" "''GBP''" "()" Map.empty]
    load_other_format [of "''JSON''" "''GBP''" "()" Map.empty]
  by (simp add: lower_def lower_char_def upper_letters_def lower_letters_def load_def)

section \<open>Properties of the numbers\<close>

text \<open>
  \<open>round_half_even\<close> gives a nearest integer, and the even one of the two when they
  are equally near.  An integer below \<open>2^53\<close> is a double, and a text made of decimal
  digits is read as the integer it writes.
\<close>

lemma round_half_even_nearest:
  "\<bar>of_int (round_half_even q) - q\<bar> \<le> 1 / 2"
proof -
  have "of_int \<lfloor>q\<rfloor> \<le> q" and "q < of_int \<lfloor>q\<rfloor> + 1" by linarith+
  then show ?thesis
    by (auto simp: round_half_even_def Let_def abs_le_iff)
qed

lemma round_half_even_tie:
  assumes "\<bar>of_int (round_half_even q) - q\<bar> = 1 / 2"
  shows "even (round_half_even q)"
proof -
  let ?f = "\<lfloor>q\<rfloor>"
  have b: "of_int ?f \<le> q" "q < of_int ?f + 1" by linarith+
  show ?thesis
  proof (cases "q - of_int ?f < 1 / 2")
    case True
    then have "round_half_even q = ?f" by (simp add: round_half_even_def Let_def)
    with assms have "\<bar>of_int ?f - q\<bar> = 1 / 2" by simp
    with True b have False by linarith
    then show ?thesis ..
  next
    case False
    show ?thesis
    proof (cases "1 / 2 < q - of_int ?f")
      case True
      then have "round_half_even q = ?f + 1" using False by (simp add: round_half_even_def Let_def)
      with assms have "\<bar>of_int ?f + 1 - q\<bar> = 1 / 2" by simp
      with True b have False by linarith
      then show ?thesis ..
    next
      case t: False
      then show ?thesis using False by (simp add: round_half_even_def Let_def)
    qed
  qed
qed










subsection \<open>The parser and the numerals\<close>

text \<open>
  The parser accepts the text of a numeral and gives its value; a text that the parser
  accepts is the text of a numeral; so the parser accepts the numerals and nothing
  else.  A word for infinity holds no digit and is no numeral.
\<close>

lemma dropWhile_stops: "list_all P xs \<Longrightarrow> stops P r \<Longrightarrow> dropWhile P (xs @ r) = r"
  by (induction xs) (auto simp: stops_def split: list.splits)

lemma takeWhile_stops: "list_all P xs \<Longrightarrow> stops P r \<Longrightarrow> takeWhile P (xs @ r) = xs"
  by (induction xs) (auto simp: stops_def split: list.splits)

lemma parse_sign_text:
  "is_sign sg \<Longrightarrow> stops (\<lambda>c. c = CHR ''-'' \<or> c = CHR ''+'') r \<Longrightarrow>
   parse_sign (sg @ r) = (sg = ''-'', r)"
  by (auto simp: is_sign_def parse_sign_def stops_def split: list.splits)

lemma isdigit_not:
  "isdigit c \<Longrightarrow> \<not> isspace_ascii c \<and> c \<noteq> CHR ''-'' \<and> c \<noteq> CHR ''+'' \<and> c \<noteq> CHR ''.'' \<and>
     c \<noteq> CHR ''e'' \<and> c \<noteq> CHR ''E''"
  by (auto simp: isdigit_def isspace_ascii_def)

lemma isspace_not:
  "isspace_ascii c \<Longrightarrow> \<not> isdigit c \<and> c \<noteq> CHR ''-'' \<and> c \<noteq> CHR ''+'' \<and> c \<noteq> CHR ''.'' \<and>
     c \<noteq> CHR ''e'' \<and> c \<noteq> CHR ''E''"
  by (auto simp: isdigit_def isspace_ascii_def)

lemma stops_trail:
  assumes "list_all isspace_ascii tr"
  shows "stops isdigit tr" and "stops (\<lambda>c. c = CHR ''.'') tr"
    and "stops (\<lambda>c. c = CHR ''e'' \<or> c = CHR ''E'') tr"
  using assms isspace_not by (cases tr; auto simp: stops_def)+

lemma stops_exp:
  assumes "exp_ok x" and "list_all isspace_ascii tr"
  shows "stops isdigit (exp_text x @ tr)" and "stops (\<lambda>c. c = CHR ''.'') (exp_text x @ tr)"
proof -
  show "stops isdigit (exp_text x @ tr)"
  proof (cases x)
    case None
    then show ?thesis using stops_trail(1) [OF assms(2)] by (simp add: exp_text_def)
  next
    case (Some t)
    then show ?thesis using assms(1)
      by (cases t) (auto simp: exp_text_def exp_ok_def stops_def isdigit_def)
  qed
  show "stops (\<lambda>c. c = CHR ''.'') (exp_text x @ tr)"
  proof (cases x)
    case None
    then show ?thesis using stops_trail(2) [OF assms(2)] by (simp add: exp_text_def)
  next
    case (Some t)
    then show ?thesis using assms(1)
      by (cases t) (auto simp: exp_text_def exp_ok_def stops_def)
  qed
qed

lemma parse_exponent_text:
  assumes "exp_ok x" and "list_all isspace_ascii tr"
  shows "parse_exponent (exp_text x @ tr) = (exp_value x, tr)"
proof (cases x)
  case None
  show ?thesis
  proof (cases tr)
    case Nil
    then show ?thesis by (simp add: None exp_text_def exp_value_def parse_exponent_def)
  next
    case (Cons c cs)
    then have "c \<noteq> CHR ''e'' \<and> c \<noteq> CHR ''E''"
      using assms(2) isspace_not [of c] by simp
    then show ?thesis by (simp add: None Cons exp_text_def exp_value_def parse_exponent_def)
  qed
next
  case (Some t)
  obtain c sg ds where t: "t = (c, sg, ds)" by (cases t)
  from assms(1) have c: "c = CHR ''e'' \<or> c = CHR ''E''" and sg: "is_sign sg"
    and ds: "ds \<noteq> []" "list_all isdigit ds"
    by (simp_all add: Some t exp_ok_def)
  from ds obtain d ds' where dd: "ds = d # ds'" and d: "isdigit d" by (cases ds) auto
  have "stops (\<lambda>c. c = CHR ''-'' \<or> c = CHR ''+'') (ds @ tr)"
    using d isdigit_not [of d] by (simp add: dd stops_def)
  then have ps: "parse_sign (sg @ ds @ tr) = (sg = ''-'', ds @ tr)"
    by (rule parse_sign_text [OF sg])
  have tk: "takeWhile isdigit (ds @ tr) = ds" and dr: "dropWhile isdigit (ds @ tr) = tr"
    using ds(2) stops_trail(1) [OF assms(2)] by (simp_all add: takeWhile_stops dropWhile_stops)
  show ?thesis
    using c ds(1) by (auto simp: Some t exp_text_def exp_value_def parse_exponent_def ps tk dr)
qed

lemma parse_fraction_text:
  assumes "frac_ok ip f" and "exp_ok x" and "list_all isspace_ascii tr"
  shows "parse_fraction (frac_text f @ exp_text x @ tr) = (frac_digits_of f, exp_text x @ tr)"
proof (cases f)
  case None
  have "stops (\<lambda>c. c = CHR ''.'') (exp_text x @ tr)"
    by (rule stops_exp [OF assms(2,3)])
  then show ?thesis
    by (auto simp: None frac_text_def frac_digits_of_def parse_fraction_def stops_def split: list.splits)
next
  case (Some fp)
  then have fp: "list_all isdigit fp" using assms(1) by (simp add: frac_ok_def)
  have st: "stops isdigit (exp_text x @ tr)"
    by (rule stops_exp [OF assms(2,3)])
  show ?thesis
    using fp st
    by (simp add: Some frac_text_def frac_digits_of_def parse_fraction_def takeWhile_stops dropWhile_stops)
qed

lemma xstrtod_decimal:
  assumes "decimal_ok n"
  shows "xstrtod (decimal_text n) = Some (decimal_value n)"
proof -
  let ?x = "exp_text (d_exp n) @ d_trail n"
  let ?f = "frac_text (d_frac n) @ ?x"
  let ?i = "d_int n @ ?f"
  from assms have ld: "list_all isspace_ascii (d_lead n)" and sg: "is_sign (d_sign n)"
    and ip: "list_all isdigit (d_int n)" and fr: "frac_ok (d_int n) (d_frac n)"
    and ex: "exp_ok (d_exp n)" and tr: "list_all isspace_ascii (d_trail n)"
    by (simp_all add: decimal_ok_def)
  have sf: "stops isdigit ?f"
  proof (cases "d_frac n")
    case None
    then show ?thesis using stops_exp(1) [OF ex tr] by (simp add: frac_text_def)
  next
    case (Some fp)
    then show ?thesis by (simp add: frac_text_def stops_def isdigit_def)
  qed
  have hd_i: "\<exists>c r. ?i = c # r \<and> (isdigit c \<or> c = CHR ''.'')"
  proof (cases "d_int n")
    case Nil
    with fr obtain fp where "d_frac n = Some fp" by (cases "d_frac n") (auto simp: frac_ok_def)
    with Nil show ?thesis by (simp add: frac_text_def)
  next
    case (Cons c cs)
    with ip show ?thesis by simp
  qed
  then obtain c r where i: "?i = c # r" and c: "isdigit c \<or> c = CHR ''.''" by blast
  have c_not: "\<not> isspace_ascii c \<and> c \<noteq> CHR ''-'' \<and> c \<noteq> CHR ''+''"
    using c isdigit_not [of c] by (auto simp: isspace_ascii_def)
  have s1: "stops isspace_ascii (d_sign n @ ?i)"
    using sg c_not by (auto simp: is_sign_def stops_def i isspace_ascii_def)
  have s2: "stops (\<lambda>c. c = CHR ''-'' \<or> c = CHR ''+'') ?i"
    using c_not by (simp add: stops_def i)
  have a: "dropWhile isspace_ascii (decimal_text n) = d_sign n @ ?i"
    unfolding decimal_text_def by (rule dropWhile_stops [OF ld s1])
  have b: "parse_sign (d_sign n @ ?i) = (d_sign n = ''-'', ?i)"
    by (rule parse_sign_text [OF sg s2])
  have t: "takeWhile isdigit ?i = d_int n" and d: "dropWhile isdigit ?i = ?f"
    using ip sf by (simp_all add: takeWhile_stops dropWhile_stops)
  have pf: "parse_fraction ?f = (frac_digits_of (d_frac n), ?x)"
    by (rule parse_fraction_text [OF fr ex tr])
  have pe: "parse_exponent ?x = (exp_value (d_exp n), d_trail n)"
    by (rule parse_exponent_text [OF ex tr])
  have ne: "\<not> (d_int n = [] \<and> frac_digits_of (d_frac n) = [])"
    using fr by (cases "d_frac n") (auto simp: frac_ok_def frac_digits_of_def)
  have e: "dropWhile isspace_ascii (d_trail n) = []"
    using tr by (simp add: list_all_iff)
  show ?thesis
    unfolding xstrtod_def a b using ne tr
    by (simp add: t d pf pe decimal_value_def Let_def list_all_iff)
qed

lemma parse_sign_inv:
  assumes "parse_sign p = (neg, p')"
  shows "\<exists>sg. is_sign sg \<and> p = sg @ p' \<and> neg = (sg = ''-'')"
proof (cases p)
  case Nil
  with assms show ?thesis by (auto simp: parse_sign_def is_sign_def)
next
  case (Cons c cs)
  show ?thesis
  proof (cases "c = CHR ''-''")
    case True
    with assms Cons have "p = ''-'' @ p' \<and> neg" by (auto simp: parse_sign_def)
    then show ?thesis by (intro exI [of _ "''-''"]) (simp add: is_sign_def)
  next
    case False
    show ?thesis
    proof (cases "c = CHR ''+''")
      case True
      with assms Cons have "p = ''+'' @ p' \<and> \<not> neg" by (auto simp: parse_sign_def)
      then show ?thesis by (intro exI [of _ "''+''"]) (simp add: is_sign_def)
    next
      case plus: False
      with False assms Cons have "p = [] @ p' \<and> \<not> neg" by (auto simp: parse_sign_def)
      then show ?thesis by (intro exI [of _ "[]"]) (simp add: is_sign_def)
    qed
  qed
qed

lemma list_all_takeWhile: "list_all P (takeWhile P xs)"
  by (induction xs) auto

lemma parse_fraction_inv:
  assumes "parse_fraction q = (fd, q')"
  shows "\<exists>f. q = frac_text f @ q' \<and> fd = frac_digits_of f \<and>
             (case f of None \<Rightarrow> True | Some fp \<Rightarrow> list_all isdigit fp)"
proof (cases "\<exists>cs. q = CHR ''.'' # cs")
  case True
  then obtain cs where q: "q = CHR ''.'' # cs" by blast
  with assms have fd: "fd = takeWhile isdigit cs" and q': "q' = dropWhile isdigit cs"
    by (simp_all add: parse_fraction_def)
  show ?thesis
    by (intro exI [of _ "Some fd"])
       (simp add: frac_text_def frac_digits_of_def q fd q' list_all_takeWhile)
next
  case False
  with assms have "fd = [] \<and> q' = q"
    by (cases q) (auto simp: parse_fraction_def split: if_splits)
  then show ?thesis
    by (intro exI [of _ None]) (simp add: frac_text_def frac_digits_of_def)
qed

lemma parse_exponent_inv:
  assumes "parse_exponent q = (e, q')"
  shows "\<exists>x. exp_ok x \<and> q = exp_text x @ q' \<and> e = exp_value x"
proof (cases "\<exists>c cs. q = c # cs \<and> (c = CHR ''e'' \<or> c = CHR ''E'') \<and>
                takeWhile isdigit (snd (parse_sign cs)) \<noteq> []")
  case True
  then obtain c cs where q: "q = c # cs" and c: "c = CHR ''e'' \<or> c = CHR ''E''"
    and ne: "takeWhile isdigit (snd (parse_sign cs)) \<noteq> []" by blast
  obtain neg t where ps: "parse_sign cs = (neg, t)" by (cases "parse_sign cs")
  from parse_sign_inv [OF ps] obtain sg where sg: "is_sign sg" "cs = sg @ t" "neg = (sg = ''-'')"
    by blast
  let ?ds = "takeWhile isdigit t"
  from ne ps have ds: "?ds \<noteq> []" by simp
  from assms q c ps ds have e: "e = (if neg then - digits_val ?ds else digits_val ?ds)"
    and q': "q' = dropWhile isdigit t"
    by (auto simp: parse_exponent_def Let_def)
  show ?thesis
    using c sg ds
    by (intro exI [of _ "Some (c, sg, ?ds)"])
       (simp add: exp_ok_def exp_text_def exp_value_def q q' e list_all_takeWhile)
next
  case False
  with assms have "e = 0 \<and> q' = q"
    by (cases q) (auto simp: parse_exponent_def Let_def split: if_splits prod.splits)
  then show ?thesis
    by (intro exI [of _ None]) (simp add: exp_ok_def exp_text_def exp_value_def)
qed

lemma xstrtod_Some:
  assumes "xstrtod s = Some v"
  shows "\<exists>n. decimal_ok n \<and> decimal_text n = s \<and> decimal_value n = v"
proof -
  let ?ld = "takeWhile isspace_ascii s"
  obtain neg p where ps: "parse_sign (dropWhile isspace_ascii s) = (neg, p)"
    by (cases "parse_sign (dropWhile isspace_ascii s)")
  let ?ip = "takeWhile isdigit p"
  obtain fd p2 where pf: "parse_fraction (dropWhile isdigit p) = (fd, p2)"
    by (cases "parse_fraction (dropWhile isdigit p)")
  obtain e p3 where pe: "parse_exponent p2 = (e, p3)" by (cases "parse_exponent p2")
  from assms have ne: "\<not> (?ip = [] \<and> fd = [])"
    and tr: "dropWhile isspace_ascii p3 = []"
    and v: "v = (let number = of_int (digits_val (?ip @ fd)) * pow10 (e - int (length fd))
                 in if neg then - number else number)"
    by (auto simp: xstrtod_def ps pf pe Let_def split: if_splits)
  from parse_sign_inv [OF ps] obtain sg
    where sg: "is_sign sg" "dropWhile isspace_ascii s = sg @ p" "neg = (sg = ''-'')" by blast
  from parse_fraction_inv [OF pf] obtain f
    where f: "dropWhile isdigit p = frac_text f @ p2" "fd = frac_digits_of f"
      "case f of None \<Rightarrow> True | Some fp \<Rightarrow> list_all isdigit fp" by blast
  from parse_exponent_inv [OF pe] obtain x
    where x: "exp_ok x" "p2 = exp_text x @ p3" "e = exp_value x" by blast
  let ?n = "\<lparr>d_lead = ?ld, d_sign = sg, d_int = ?ip, d_frac = f, d_exp = x, d_trail = p3\<rparr>"
  have fo: "frac_ok ?ip f"
    using ne f(2,3) by (cases f) (auto simp: frac_ok_def frac_digits_of_def)
  have t3: "list_all isspace_ascii p3"
    using tr by (simp add: list_all_iff)
  have ok: "decimal_ok ?n"
    using sg(1) fo x(1) t3 by (simp add: decimal_ok_def list_all_takeWhile)
  have "s = ?ld @ dropWhile isspace_ascii s" by simp
  also have "dropWhile isspace_ascii s = sg @ ?ip @ dropWhile isdigit p"
    by (simp add: sg(2))
  finally have tx: "decimal_text ?n = s"
    by (simp add: decimal_text_def f(1) x(2))
  have vl: "decimal_value ?n = v"
    by (simp add: decimal_value_def v f(2) x(3) sg(3) Let_def)
  from ok tx vl show ?thesis by blast
qed

lemma xstrtod_iff:
  "xstrtod s = Some v \<longleftrightarrow> (\<exists>n. decimal_ok n \<and> decimal_text n = s \<and> decimal_value n = v)"
  using xstrtod_Some xstrtod_decimal by blast












section \<open>Properties of \<^verbatim>\<open>transform_gdps\<close>\<close>

lemma fast_unique_first_seen:
  "fast_unique us xs = us @ filter (\<lambda>y. y \<notin> set us) (first_seen xs)"
proof (induction xs arbitrary: us)
  case Nil
  then show ?case by simp
next
  case (Cons x xs)
  show ?case
  proof (cases "x \<in> set us")
    case True
    then have "filter (\<lambda>y. y \<notin> set us) (filter (\<lambda>y. y \<noteq> x) (first_seen xs)) =
               filter (\<lambda>y. y \<notin> set us) (first_seen xs)"
      by (auto intro: filter_cong)
    with True show ?thesis by (simp add: Cons.IH)
  next
    case False
    have "filter (\<lambda>y. y \<notin> set (us @ [x])) (first_seen xs) =
          filter (\<lambda>y. y \<notin> set us) (filter (\<lambda>y. y \<noteq> x) (first_seen xs))"
      by (auto intro: filter_cong)
    with False show ?thesis by (simp add: Cons.IH)
  qed
qed

lemma index_DataFrame: "index (DataFrame gdps) = row_labels gdps"
proof (cases gdps)
  case Nil
  then show ?thesis by (simp add: DataFrame_def row_labels_def)
next
  case (Cons c cs)
  obtain k d where c: "c = (k, d)" by (cases c)
  show ?thesis
  proof (cases cs)
    case Nil
    then show ?thesis by (simp add: Cons c DataFrame_def Let_def row_labels_def)
  next
    case (Cons c' cs')
    then show ?thesis
      by (simp add: \<open>gdps = c # cs\<close> c DataFrame_def Let_def row_labels_def fast_unique_first_seen)
  qed
qed

lemma set_first_seen: "set (first_seen xs) = set xs"
  by (induction xs) auto

lemma distinct_first_seen: "distinct (first_seen xs)"
  by (induction xs) (auto simp: set_first_seen)

lemma map_nth_filter:
  "map (\<lambda>i. f (xs ! i)) (filter (\<lambda>i. P (xs ! i)) [0..<length xs]) = map f (filter P xs)"
proof (induction xs rule: rev_induct)
  case Nil
  then show ?case by simp
next
  case (snoc x xs)
  have "map (\<lambda>i. f ((xs @ [x]) ! i)) (filter (\<lambda>i. P ((xs @ [x]) ! i)) [0..<length xs]) =
        map (\<lambda>i. f (xs ! i)) (filter (\<lambda>i. P (xs ! i)) [0..<length xs])"
    by (intro map_cong filter_cong) (auto simp: nth_append)
  then show ?case by (simp add: snoc.IH)
qed

lemma columns_DataFrame:
  "columns (DataFrame gdps) = map (\<lambda>(k, d). (k, map (map_of d) (row_labels gdps))) gdps"
  using index_DataFrame [of gdps] by (simp add: DataFrame_def Let_def)

lemma coerced_frame:
  "apply_to_numeric (replace_commas (DataFrame gdps)) =
     \<lparr>index = row_labels gdps,
      columns = map (\<lambda>(k, d). (k, map (cell_value d) (row_labels gdps))) gdps\<rparr>"
  by (simp add: apply_to_numeric_def replace_commas_def applymap_def index_DataFrame
      columns_DataFrame cell_value_def case_prod_beta comp_def)

lemma set_row_labels: "set (row_labels gdps) = set (entities gdps)"
  using index_DataFrame [of gdps]
  by (auto simp: row_labels_def entities_def set_first_seen split: list.splits)

lemma set_kept: "set (kept gdps) = set (survivors gdps)"
  by (simp add: kept_def survivors_def set_row_labels)

lemma list_all_kept: "list_all P (kept gdps) = list_all P (survivors gdps)"
  by (simp add: list_all_iff set_kept)

lemma notna_rows_coerced:
  "notna_rows \<lparr>index = idx, columns = map (\<lambda>(k, d). (k, map (cell_value d) idx)) gdps\<rparr> =
     filter (\<lambda>i. valid_row gdps (idx ! i)) [0..<length idx]"
  unfolding notna_rows_def
  by (rule filter_cong) (auto simp: valid_row_def list_all_iff)

lemma dropna_coerced:
  "dropna \<lparr>index = idx, columns = map (\<lambda>(k, d). (k, map (cell_value d) idx)) gdps\<rparr> =
     \<lparr>index = filter (valid_row gdps) idx,
      columns = map (\<lambda>(k, d). (k, map (cell_value d) (filter (valid_row gdps) idx))) gdps\<rparr>"
proof -
  let ?keep = "filter (\<lambda>i. valid_row gdps (idx ! i)) [0..<length idx]"
  have i: "map (nth idx) ?keep = filter (valid_row gdps) idx"
    using map_nth_filter [of "\<lambda>e. e" idx "valid_row gdps"] by simp
  have c: "map (nth (map (cell_value d) idx)) ?keep = map (cell_value d) (filter (valid_row gdps) idx)" for d
  proof -
    have "map (nth (map (cell_value d) idx)) ?keep = map (\<lambda>i. cell_value d (idx ! i)) ?keep"
      by (rule map_cong) auto
    then show ?thesis
      using map_nth_filter [of "cell_value d" idx "valid_row gdps"] by simp
  qed
  show ?thesis
    unfolding dropna_def notna_rows_coerced
    by (simp add: take_rows_def i c case_prod_beta comp_def)
qed

lemma isfinite_rint: "isfinite (rint x) = isfinite x"
  by (cases x) auto

lemma transform_gdps_eq:
  "transform_gdps gdps rates currency =
     (case map_of rates currency of
        None \<Rightarrow> Inl (KeyError currency)
      | Some rate \<Rightarrow>
          if list_all (\<lambda>(k, d). list_all (\<lambda>e. isfinite (fmul (cell_value d e) rate)) (kept gdps)) gdps
          then Inr \<lparr>index = kept gdps,
                    columns = map (\<lambda>(k, d). (k, map (\<lambda>e. astype_int64 (rint (fmul (cell_value d e) rate)))
                                                 (kept gdps))) gdps\<rparr>
          else Inl ValueError)"
proof (cases "map_of rates currency")
  case None
  then show ?thesis by (simp add: transform_gdps_def Let_def)
next
  case (Some rate)
  let ?S = "kept gdps"
  let ?R = "\<lparr>index = ?S,
            columns = map (\<lambda>(k, d). (k, map (\<lambda>e. rint (fmul (cell_value d e) rate)) ?S)) gdps\<rparr>"
  have "dropna (apply_to_numeric (replace_commas (DataFrame gdps))) =
          \<lparr>index = ?S, columns = map (\<lambda>(k, d). (k, map (cell_value d) ?S)) gdps\<rparr>"
    by (simp add: coerced_frame dropna_coerced kept_def)
  then have r: "round0 (mul (dropna (apply_to_numeric (replace_commas (DataFrame gdps)))) rate) = ?R"
    by (simp add: mul_def round0_def applymap_def case_prod_beta comp_def)
  have t: "transform_gdps gdps rates currency = astype_int ?R"
    using Some r by (simp add: transform_gdps_def Let_def)
  have f: "list_all (\<lambda>(k, vs). list_all isfinite vs) (columns ?R) =
           list_all (\<lambda>(k, d). list_all (\<lambda>e. isfinite (fmul (cell_value d e) rate)) ?S) gdps"
    by (simp add: list_all_iff case_prod_beta isfinite_rint)
  have a: "applymap astype_int64 ?R =
           \<lparr>index = ?S,
            columns = map (\<lambda>(k, d). (k, map (\<lambda>e. astype_int64 (rint (fmul (cell_value d e) rate))) ?S)) gdps\<rparr>"
    by (simp add: applymap_def case_prod_beta comp_def)
  show ?thesis
    unfolding t astype_int_def f a using Some by simp
qed

lemma transform_gdps_Inr:
  assumes "transform_gdps gdps rates currency = Inr df"
  obtains rate where "map_of rates currency = Some rate"
    and "list_all (\<lambda>(k, d). list_all (\<lambda>e. isfinite (fmul (cell_value d e) rate)) (kept gdps)) gdps"
    and "index df = kept gdps"
    and "columns df = map (\<lambda>(k, d). (k, map (\<lambda>e. astype_int64 (rint (fmul (cell_value d e) rate)))
                                           (kept gdps))) gdps"
proof (cases "map_of rates currency")
  case None
  with assms show ?thesis by (simp add: transform_gdps_eq)
next
  case (Some rate)
  show ?thesis
  proof (cases "list_all (\<lambda>(k, d). list_all (\<lambda>e. isfinite (fmul (cell_value d e) rate)) (kept gdps)) gdps")
    case True
    with assms Some have "df = \<lparr>index = kept gdps,
        columns = map (\<lambda>(k, d). (k, map (\<lambda>e. astype_int64 (rint (fmul (cell_value d e) rate)))
                                           (kept gdps))) gdps\<rparr>"
      by (simp add: transform_gdps_eq)
    then have "index df = kept gdps"
      and "columns df = map (\<lambda>(k, d). (k, map (\<lambda>e. astype_int64 (rint (fmul (cell_value d e) rate)))
                                           (kept gdps))) gdps"
      by simp_all
    with Some True show ?thesis by (rule that)
  next
    case False
    with assms Some show ?thesis by (simp add: transform_gdps_eq)
  qed
qed

lemma valid_row_iff:
  "valid_row gdps e \<longleftrightarrow>
     (\<forall>(k, d) \<in> set gdps. \<exists>s. map_of d e = Some s \<and> to_numeric (re_sub_comma s) \<noteq> NaN)"
proof -
  have "cell_value d e \<noteq> NaN \<longleftrightarrow> (\<exists>s. map_of d e = Some s \<and> to_numeric (re_sub_comma s) \<noteq> NaN)" for d
    by (cases "map_of d e") (simp_all add: cell_value_def)
  then show ?thesis
    by (simp add: valid_row_def list_all_iff case_prod_beta)
qed

lemma set_entities: "set (entities gdps) = (\<Union>(k, d) \<in> set gdps. fst ` set d)"
  by (auto simp: entities_def set_first_seen)


subsection \<open>Worked examples\<close>

text \<open>
  The end-to-end scenario (two sources, one entity with a cell that is not a number),
  a raw table whose sources list the entities in different orders, a raw table with a
  single source, and the conversion of 21,433,226 at the rate 0.73.
\<close>

lemma transform_gdps_scenario:
  "transform_gdps
     [(''WB'', [(''World'', ''87,798,526''), (''X'', ''N/A'')]),
      (''IMF'', [(''World'', ''93,863,851''), (''X'', ''500'')])]
     [(''GBP'', to_double (73 / 100))] ''GBP'' =
   Inr \<lparr>index = [''World''], columns = [(''WB'', [64092924]), (''IMF'', [68520611])]\<rparr>"
  by code_simp

lemma transform_gdps_order_example:
  "transform_gdps
     [(''WB'', [(''B'', ''2''), (''A'', ''1''), (''X'', ''n/a'')]),
      (''IMF'', [(''C'', ''3''), (''A'', ''1''), (''B'', ''5'')])]
     [(''GBP'', to_double (73 / 100))] ''GBP'' =
   Inr \<lparr>index = [''B'', ''A''], columns = [(''WB'', [1, 1]), (''IMF'', [4, 1])]\<rparr>"
  by code_simp

lemma transform_gdps_single_source:
  "transform_gdps
     [(''WB'', [(''Japan'', ''5,081,770''), (''Germany'', ''3,861,124''), (''Atlantis'', ''N/A'')])]
     [(''GBP'', to_double (73 / 100))] ''GBP'' =
   Inr \<lparr>index = [''Germany'', ''Japan''], columns = [(''WB'', [2818621, 3709692])]\<rparr>"
  by code_simp

lemma transform_gdps_example:
  "transform_gdps [(''WB'', [(''United States'', ''21,433,226'')])]
     [(''GBP'', to_double (73 / 100))] ''GBP'' =
   Inr \<lparr>index = [''United States''], columns = [(''WB'', [15646255])]\<rparr>"
  by code_simp

lemma fmul_example:
  "fmul (cell_value [(''United States'', ''21,433,226'')] ''United States'') (to_double (73 / 100)) =
     Finite (4200009590248571 / 268435456)"
  by code_simp

lemma round_half_even_example:
  "round_half_even (4200009590248571 / 268435456) = 15646255"
  by code_simp

subsection \<open>Rows, row order, rate lookup, commas and rounding\<close>

text \<open>
  Claim C1.  When \<^verbatim>\<open>transform_gdps\<close> returns a frame, a row label of the frame is an
  entity of the raw table, and an entity of the raw table is missing from the frame
  exactly when, under some source key, its cell is missing or the text of its cell,
  commas removed, is coerced to NaN.
\<close>

theorem transform_gdps_rows:
  assumes "transform_gdps gdps rates currency = Inr df"
  shows "set (index df) \<subseteq> set (entities gdps) \<and>
         set (entities gdps) = (\<Union>(k, d) \<in> set gdps. fst ` set d) \<and>
         (\<forall>e \<in> set (entities gdps).
            (e \<notin> set (index df)) =
            (\<exists>(k, d) \<in> set gdps.
               map_of d e = None \<or>
               (\<exists>s. map_of d e = Some s \<and> to_numeric (re_sub_comma s) = NaN)))"
proof -
  from assms have "index df = kept gdps"
    by (rule transform_gdps_Inr)
  then have idx: "set (index df) = set (survivors gdps)"
    by (simp add: set_kept)
  have "(e \<notin> set (index df)) =
        (\<exists>(k, d) \<in> set gdps.
           map_of d e = None \<or> (\<exists>s. map_of d e = Some s \<and> to_numeric (re_sub_comma s) = NaN))"
    if "e \<in> set (entities gdps)" for e
  proof -
    have "(e \<notin> set (index df)) = (\<not> valid_row gdps e)"
      using that by (simp add: idx survivors_def)
    also have "\<dots> = (\<exists>(k, d) \<in> set gdps. \<not> (\<exists>s. map_of d e = Some s \<and> to_numeric (re_sub_comma s) \<noteq> NaN))"
      by (simp add: valid_row_iff case_prod_beta)
    also have "\<dots> = (\<exists>(k, d) \<in> set gdps.
           map_of d e = None \<or> (\<exists>s. map_of d e = Some s \<and> to_numeric (re_sub_comma s) = NaN))"
      by (rule bex_cong [OF refl]) (auto simp: case_prod_beta)
    finally show ?thesis .
  qed
  then show ?thesis
    by (auto simp: idx survivors_def set_entities)
qed

theorem transform_gdps_rows_witness:
  "transform_gdps
     [(''WB'', [(''World'', ''87,798,526''), (''X'', ''N/A'')]),
      (''IMF'', [(''World'', ''93,863,851''), (''X'', ''500'')])]
     [(''GBP'', to_double (73 / 100))] ''GBP'' =
   Inr \<lparr>index = [''World''], columns = [(''WB'', [64092924]), (''IMF'', [68520611])]\<rparr> \<and>
   set (entities
     [(''WB'', [(''World'', ''87,798,526''), (''X'', ''N/A'')]),
      (''IMF'', [(''World'', ''93,863,851''), (''X'', ''500'')])]) = {''World'', ''X''} \<and>
   ''World'' \<in> set (index \<lparr>index = [''World''],
                        columns = [(''WB'', [(64092924 :: int)]), (''IMF'', [68520611])]\<rparr>) \<and>
   ''X'' \<notin> set (index \<lparr>index = [''World''],
                    columns = [(''WB'', [(64092924 :: int)]), (''IMF'', [68520611])]\<rparr>) \<and>
   map_of [(''World'', ''87,798,526''), (''X'', ''N/A'')] ''X'' = Some ''N/A'' \<and>
   to_numeric (re_sub_comma ''N/A'') = NaN"
proof -
  note r = transform_gdps_scenario
  have nan: "to_numeric (re_sub_comma ''N/A'') = NaN"
    by code_simp
  from transform_gdps_rows [OF r]
  have "set (entities
     [(''WB'', [(''World'', ''87,798,526''), (''X'', ''N/A'')]),
      (''IMF'', [(''World'', ''93,863,851''), (''X'', ''500'')])]) = {''World'', ''X''}"
    by auto
  with r nan show ?thesis by simp
qed

text \<open>
  Claim C6, as the code has it.  When \<^verbatim>\<open>transform_gdps\<close> returns a frame for a raw table
  that does not have exactly one source, its row labels are the entities in the order
  in which they are first met across the per-source mappings (which is the row order
  of the frame built from the raw table), with the entities that have a missing or
  non-numeric cell left out.  For a raw table with a single source the row labels of
  the frame built from it are the sorted names of that source, and the returned frame
  has them in that sorted order, again without the entities left out.
\<close>

theorem transform_gdps_row_order:
  assumes "transform_gdps gdps rates currency = Inr df"
  shows "(length gdps \<noteq> 1 \<longrightarrow>
            index df = filter (valid_row gdps) (first_seen (concat (map (\<lambda>(k, d). map fst d) gdps))) \<and>
            index (DataFrame gdps) = first_seen (concat (map (\<lambda>(k, d). map fst d) gdps)) \<and>
            distinct (index df)) \<and>
         (\<forall>k d. gdps = [(k, d)] \<longrightarrow>
            index df = filter (valid_row gdps) (sort (map fst d)) \<and>
            index (DataFrame gdps) = sort (map fst d) \<and>
            sorted (index df))"
proof (intro conjI impI allI)
  from assms have idx: "index df = kept gdps"
    by (rule transform_gdps_Inr)
  {
    assume "length gdps \<noteq> 1"
    then have r: "row_labels gdps = first_seen (concat (map (\<lambda>(k, d). map fst d) gdps))"
      by (auto simp: row_labels_def split: list.splits)
    show "index df = filter (valid_row gdps) (first_seen (concat (map (\<lambda>(k, d). map fst d) gdps)))"
      by (simp add: idx kept_def r)
    show "index (DataFrame gdps) = first_seen (concat (map (\<lambda>(k, d). map fst d) gdps))"
      by (simp add: index_DataFrame r)
    show "distinct (index df)"
      by (simp add: idx kept_def r distinct_first_seen)
  }
  fix k d
  assume "gdps = [(k, d)]"
  then have r: "row_labels gdps = sort (map fst d)"
    by (simp add: row_labels_def)
  show "index df = filter (valid_row gdps) (sort (map fst d))"
    by (simp add: idx kept_def r)
  show "index (DataFrame gdps) = sort (map fst d)"
    by (simp add: index_DataFrame r)
  show "sorted (index df)"
    using sorted_filter [of "\<lambda>x. x" "sort (map fst d)" "valid_row gdps"] by (simp add: idx kept_def r)
qed

theorem transform_gdps_row_order_witness:
  "transform_gdps
     [(''WB'', [(''B'', ''2''), (''A'', ''1''), (''X'', ''n/a'')]),
      (''IMF'', [(''C'', ''3''), (''A'', ''1''), (''B'', ''5'')])]
     [(''GBP'', to_double (73 / 100))] ''GBP'' =
   Inr \<lparr>index = [''B'', ''A''], columns = [(''WB'', [1, 1]), (''IMF'', [4, 1])]\<rparr> \<and>
   length [(''WB'', [(''B'', ''2''), (''A'', ''1''), (''X'', ''n/a'')]),
           (''IMF'', [(''C'', ''3''), (''A'', ''1''), (''B'', ''5'')])] \<noteq> 1 \<and>
   first_seen (concat (map (\<lambda>(k, d). map fst d)
     [(''WB'', [(''B'', ''2''), (''A'', ''1''), (''X'', ''n/a'')]),
      (''IMF'', [(''C'', ''3''), (''A'', ''1''), (''B'', ''5'')])])) = [''B'', ''A'', ''X'', ''C''] \<and>
   filter (valid_row
     [(''WB'', [(''B'', ''2''), (''A'', ''1''), (''X'', ''n/a'')]),
      (''IMF'', [(''C'', ''3''), (''A'', ''1''), (''B'', ''5'')])]) [''B'', ''A'', ''X'', ''C''] =
     [''B'', ''A''] \<and>
   transform_gdps
     [(''WB'', [(''Japan'', ''5,081,770''), (''Germany'', ''3,861,124''), (''Atlantis'', ''N/A'')])]
     [(''GBP'', to_double (73 / 100))] ''GBP'' =
   Inr \<lparr>index = [''Germany'', ''Japan''], columns = [(''WB'', [2818621, 3709692])]\<rparr> \<and>
   sort (map fst [(''Japan'', ''5,081,770''), (''Germany'', ''3,861,124''), (''Atlantis'', ''N/A'')]) =
     [''Atlantis'', ''Germany'', ''Japan''] \<and>
   filter (valid_row
     [(''WB'', [(''Japan'', ''5,081,770''), (''Germany'', ''3,861,124''), (''Atlantis'', ''N/A'')])])
     [''Atlantis'', ''Germany'', ''Japan''] = [''Germany'', ''Japan'']"
proof -
  note r = transform_gdps_order_example
  note r1 = transform_gdps_single_source
  have f: "first_seen (concat (map (\<lambda>(k, d). map fst d)
     [(''WB'', [(''B'', ''2''), (''A'', ''1''), (''X'', ''n/a'')]),
      (''IMF'', [(''C'', ''3''), (''A'', ''1''), (''B'', ''5'')])])) = [''B'', ''A'', ''X'', ''C'']"
    by simp
  have s: "sort (map fst [(''Japan'', ''5,081,770''), (''Germany'', ''3,861,124''), (''Atlantis'', ''N/A'')]) =
     [''Atlantis'', ''Germany'', ''Japan'']"
    by code_simp
  from transform_gdps_row_order [OF r] transform_gdps_row_order [OF r1] f s r r1
  show ?thesis by simp
qed

theorem transform_gdps_single_source_counterexample:
  "transform_gdps
     [(''WB'', [(''Japan'', ''5,081,770''), (''Germany'', ''3,861,124''), (''Atlantis'', ''N/A'')])]
     [(''GBP'', to_double (73 / 100))] ''GBP'' =
   Inr \<lparr>index = [''Germany'', ''Japan''], columns = [(''WB'', [2818621, 3709692])]\<rparr> \<and>
   filter (valid_row
     [(''WB'', [(''Japan'', ''5,081,770''), (''Germany'', ''3,861,124''), (''Atlantis'', ''N/A'')])])
     (first_seen (concat (map (\<lambda>(k, d). map fst d)
       [(''WB'', [(''Japan'', ''5,081,770''), (''Germany'', ''3,861,124''), (''Atlantis'', ''N/A'')])]))) =
   [''Japan'', ''Germany'']"
  by code_simp

text \<open>
  Claim C7.  When the target currency is not a key of the rate table,
  \<^verbatim>\<open>transform_gdps\<close> raises \<^verbatim>\<open>KeyError\<close> for it and returns no frame, whatever the raw
  table holds.  When it is a key, no \<^verbatim>\<open>KeyError\<close> is raised and the result is what the
  remaining steps (multiplication by the rate found, rounding, conversion to integers)
  make of the filtered frame.  A frame is returned exactly when the rate is found and
  the product of every cell of every remaining row is finite.
\<close>

theorem transform_gdps_rate_lookup:
  "(map_of rates currency = None \<longrightarrow>
      transform_gdps gdps rates currency = Inl (KeyError currency)) \<and>
   (\<forall>rate. map_of rates currency = Some rate \<longrightarrow>
      transform_gdps gdps rates currency =
        astype_int (round0 (mul (dropna (apply_to_numeric (replace_commas (DataFrame gdps)))) rate)) \<and>
      (\<forall>k. transform_gdps gdps rates currency \<noteq> Inl (KeyError k))) \<and>
   ((\<exists>df. transform_gdps gdps rates currency = Inr df) =
    (\<exists>rate. map_of rates currency = Some rate \<and>
       list_all (\<lambda>(k, d). list_all (\<lambda>e. isfinite (fmul (cell_value d e) rate)) (survivors gdps))
         gdps))"
proof (intro conjI)
  show "map_of rates currency = None \<longrightarrow>
      transform_gdps gdps rates currency = Inl (KeyError currency)"
    by (simp add: transform_gdps_def Let_def)
  show "\<forall>rate. map_of rates currency = Some rate \<longrightarrow>
      transform_gdps gdps rates currency =
        astype_int (round0 (mul (dropna (apply_to_numeric (replace_commas (DataFrame gdps)))) rate)) \<and>
      (\<forall>k. transform_gdps gdps rates currency \<noteq> Inl (KeyError k))"
    by (auto simp: transform_gdps_def Let_def astype_int_def)
  show "(\<exists>df. transform_gdps gdps rates currency = Inr df) =
    (\<exists>rate. map_of rates currency = Some rate \<and>
       list_all (\<lambda>(k, d). list_all (\<lambda>e. isfinite (fmul (cell_value d e) rate)) (survivors gdps))
         gdps)"
    by (cases "map_of rates currency") (simp_all add: transform_gdps_eq list_all_kept)
qed

theorem transform_gdps_rate_lookup_witness:
  "map_of [(''GBP'', to_double (73 / 100))] ''EUR'' = None \<and>
   transform_gdps
     [(''WB'', [(''World'', ''87,798,526''), (''X'', ''N/A'')]),
      (''IMF'', [(''World'', ''93,863,851''), (''X'', ''500'')])]
     [(''GBP'', to_double (73 / 100))] ''EUR'' = Inl (KeyError ''EUR'') \<and>
   map_of [(''GBP'', to_double (73 / 100))] ''GBP'' = Some (to_double (73 / 100)) \<and>
   transform_gdps
     [(''WB'', [(''World'', ''87,798,526''), (''X'', ''N/A'')]),
      (''IMF'', [(''World'', ''93,863,851''), (''X'', ''500'')])]
     [(''GBP'', to_double (73 / 100))] ''GBP'' =
   Inr \<lparr>index = [''World''], columns = [(''WB'', [64092924]), (''IMF'', [68520611])]\<rparr>"
  using transform_gdps_rate_lookup [of "[(''GBP'', to_double (73 / 100))]" "''EUR''"
      "[(''WB'', [(''World'', ''87,798,526''), (''X'', ''N/A'')]),
        (''IMF'', [(''World'', ''93,863,851''), (''X'', ''500'')])]"]
    transform_gdps_scenario
  by simp




text \<open>
  Claim C3, as the code has it.  When \<^verbatim>\<open>transform_gdps\<close> returns a frame, the rate was
  found and each column of the frame holds, for each row label, the product of the
  cell's number and the rate (a float product), rounded by \<^verbatim>\<open>rint\<close> and cast to
  \<^verbatim>\<open>int64\<close>.  Every such product is finite, and when its nearest integer (ties to the
  even integer) lies within the \<^verbatim>\<open>int64\<close> range, the stored value is exactly that
  integer.  When the rate is found and some product of a surviving cell is not finite,
  \<^verbatim>\<open>transform_gdps\<close> raises \<^verbatim>\<open>ValueError\<close>.  The nearest integer \<open>round_half_even q\<close>
  is at most one half away from \<open>q\<close>, and even when it is exactly one half away.
\<close>

theorem transform_gdps_rounding:
  "(transform_gdps gdps rates currency = Inr df \<longrightarrow>
      (\<exists>rate. map_of rates currency = Some rate \<and>
         columns df =
           map (\<lambda>(k, d). (k, map (\<lambda>e. astype_int64 (rint (fmul (cell_value d e) rate))) (index df)))
             gdps \<and>
         (\<forall>(k, d) \<in> set gdps. \<forall>e \<in> set (index df).
            \<exists>p. fmul (cell_value d e) rate = Finite p \<and>
                (int64_min \<le> round_half_even p \<and> round_half_even p \<le> int64_max \<longrightarrow>
                   astype_int64 (rint (fmul (cell_value d e) rate)) = round_half_even p)))) \<and>
   (map_of rates currency = Some r \<longrightarrow> (k', d') \<in> set gdps \<longrightarrow> e' \<in> set (survivors gdps) \<longrightarrow>
      \<not> isfinite (fmul (cell_value d' e') r) \<longrightarrow>
      transform_gdps gdps rates currency = Inl ValueError) \<and>
   \<bar>of_int (round_half_even q) - q\<bar> \<le> 1 / 2 \<and>
   (\<bar>of_int (round_half_even q) - q\<bar> = 1 / 2 \<longrightarrow> even (round_half_even q))"
proof (intro conjI impI)
  show "\<bar>of_int (round_half_even q) - q\<bar> \<le> 1 / 2"
    by (rule round_half_even_nearest)
  show "even (round_half_even q)" if "\<bar>of_int (round_half_even q) - q\<bar> = 1 / 2"
    using that by (rule round_half_even_tie)
next
  assume res: "transform_gdps gdps rates currency = Inr df"
  from res obtain rate where rate: "map_of rates currency = Some rate"
    and fin: "list_all (\<lambda>(k, d). list_all (\<lambda>e. isfinite (fmul (cell_value d e) rate)) (kept gdps)) gdps"
    and idx: "index df = kept gdps"
    and cols: "columns df = map (\<lambda>(k, d). (k, map (\<lambda>e. astype_int64 (rint (fmul (cell_value d e) rate)))
                                           (kept gdps))) gdps"
    by (rule transform_gdps_Inr)
  have "\<exists>p. fmul (cell_value d e) rate = Finite p \<and>
          (int64_min \<le> round_half_even p \<and> round_half_even p \<le> int64_max \<longrightarrow>
             astype_int64 (rint (fmul (cell_value d e) rate)) = round_half_even p)"
    if "(k, d) \<in> set gdps" and "e \<in> set (index df)" for k d e
  proof -
    from fin that have "isfinite (fmul (cell_value d e) rate)"
      by (auto simp: list_all_iff idx)
    then obtain p where p: "fmul (cell_value d e) rate = Finite p"
      by (cases "fmul (cell_value d e) rate") auto
    then show ?thesis by simp
  qed
  then have "\<forall>(k, d) \<in> set gdps. \<forall>e \<in> set (index df).
            \<exists>p. fmul (cell_value d e) rate = Finite p \<and>
                (int64_min \<le> round_half_even p \<and> round_half_even p \<le> int64_max \<longrightarrow>
                   astype_int64 (rint (fmul (cell_value d e) rate)) = round_half_even p)"
    by blast
  with rate cols idx
  show "\<exists>rate. map_of rates currency = Some rate \<and>
         columns df =
           map (\<lambda>(k, d). (k, map (\<lambda>e. astype_int64 (rint (fmul (cell_value d e) rate))) (index df)))
             gdps \<and>
         (\<forall>(k, d) \<in> set gdps. \<forall>e \<in> set (index df).
            \<exists>p. fmul (cell_value d e) rate = Finite p \<and>
                (int64_min \<le> round_half_even p \<and> round_half_even p \<le> int64_max \<longrightarrow>
                   astype_int64 (rint (fmul (cell_value d e) rate)) = round_half_even p))"
    by simp
next
  assume "map_of rates currency = Some r" and "(k', d') \<in> set gdps"
    and "e' \<in> set (survivors gdps)" and "\<not> isfinite (fmul (cell_value d' e') r)"
  then show "transform_gdps gdps rates currency = Inl ValueError"
    by (auto simp: transform_gdps_eq list_all_iff set_kept)
qed

theorem transform_gdps_rounding_witness:
  "transform_gdps [(''WB'', [(''United States'', ''21,433,226'')])]
     [(''GBP'', to_double (73 / 100))] ''GBP'' =
   Inr \<lparr>index = [''United States''], columns = [(''WB'', [15646255])]\<rparr> \<and>
   fmul (cell_value [(''United States'', ''21,433,226'')] ''United States'') (to_double (73 / 100)) =
     Finite (4200009590248571 / 268435456) \<and>
   round_half_even (4200009590248571 / 268435456) = 15646255 \<and>
   int64_min \<le> 15646255 \<and> 15646255 \<le> int64_max \<and>
   astype_int64 (rint (fmul (cell_value [(''United States'', ''21,433,226'')] ''United States'')
     (to_double (73 / 100)))) = 15646255"
proof -
  note r = transform_gdps_example
  from transform_gdps_rounding [of "[(''WB'', [(''United States'', ''21,433,226'')])]"
      "[(''GBP'', to_double (73 / 100))]" "''GBP''"
      "\<lparr>index = [''United States''], columns = [(''WB'', [15646255])]\<rparr>"] r
  have "astype_int64 (rint (fmul (cell_value [(''United States'', ''21,433,226'')] ''United States'')
     (to_double (73 / 100)))) = 15646255"
    by auto
  with r fmul_example round_half_even_example show ?thesis
    by (simp add: int64_min_def int64_max_def)
qed

theorem transform_gdps_int64_counterexample:
  "transform_gdps [(''WB'', [(''X'', ''100,000,000,000,000,000,000'')])]
     [(''GBP'', to_double (73 / 100))] ''GBP'' =
   Inr \<lparr>index = [''X''], columns = [(''WB'', [- 9223372036854775808])]\<rparr> \<and>
   fmul (cell_value [(''X'', ''100,000,000,000,000,000,000'')] ''X'') (to_double (73 / 100)) =
     Finite 73000000000000000000 \<and>
   round_half_even 73000000000000000000 = 73000000000000000000"
  by code_simp

end
